theory Spec2Isabelle
  imports Main "HOL-Library.AList"
begin

section \<open>The C heap\<close>

text \<open>
  The controller of \<^verbatim>\<open>th_ctrl.c\<close> keeps its result buffers and its duplicated argument
  vectors in heap blocks obtained from \<^verbatim>\<open>malloc\<close>, \<^verbatim>\<open>calloc\<close> and \<^verbatim>\<open>mosh_strdup\<close>, and
  several properties of the controller are about which blocks are released. The heap is
  therefore explicit: an association list from the addresses of the allocated blocks to
  their contents. A pointer is an address or \<^verbatim>\<open>NULL\<close> (\<open>None\<close>).

  A block is either a character buffer, represented by the C string it holds (the bytes
  before the first NUL; a zero-filled buffer holds the empty string), or an array of
  \<^verbatim>\<open>char *\<close>.

  Whether an allocation succeeds is not decided by the program. The heap carries the
  outcomes of the allocation requests still to come (\<open>outcomes\<close>): each request consumes
  one outcome, and once the list is used up every request succeeds.
\<close>

type_synonym addr = nat
type_synonym ptr = "addr option"

datatype block = Chars string | Ptrs "ptr list"

record heap =
  live :: "(addr \<times> block) list"
  outcomes :: "bool list"

definition blk :: "heap \<Rightarrow> addr \<Rightarrow> block option" where
  "blk h a = map_of (live h) a"

definition fresh_addr :: "heap \<Rightarrow> addr" where
  "fresh_addr h = Suc (fold max (map fst (live h)) 0)"

definition alloc :: "block \<Rightarrow> heap \<Rightarrow> ptr \<times> heap" where
  "alloc b h =
     (case outcomes h of
        [] \<Rightarrow> (Some (fresh_addr h), h\<lparr>live := (fresh_addr h, b) # live h\<rparr>)
      | ok # rest \<Rightarrow>
          if ok then (Some (fresh_addr h), h\<lparr>live := (fresh_addr h, b) # live h, outcomes := rest\<rparr>)
          else (None, h\<lparr>outcomes := rest\<rparr>))"

text \<open>
  \<^verbatim>\<open>free(p)\<close>: nothing for \<^verbatim>\<open>NULL\<close>, otherwise the block at \<open>p\<close> is no longer allocated.
  Stores and frees through a pointer that is not allocated are undefined in C; here they
  leave the heap as it is.
\<close>

definition heap_free :: "ptr \<Rightarrow> heap \<Rightarrow> heap" where
  "heap_free p h = (case p of None \<Rightarrow> h | Some a \<Rightarrow> h\<lparr>live := AList.delete a (live h)\<rparr>)"

definition heap_store :: "addr \<Rightarrow> block \<Rightarrow> heap \<Rightarrow> heap" where
  "heap_store a b h = (if blk h a = None then h else h\<lparr>live := AList.update a b (live h)\<rparr>)"

text \<open>\<^verbatim>\<open>arr[i] = q\<close> for an array of pointers at address \<open>a\<close>.\<close>

definition store_ptr :: "addr \<Rightarrow> nat \<Rightarrow> ptr \<Rightarrow> heap \<Rightarrow> heap" where
  "store_ptr a i q h =
     (case blk h a of
        Some (Ptrs ps) \<Rightarrow> if i < length ps then heap_store a (Ptrs (ps[i := q])) h else h
      | _ \<Rightarrow> h)"

text \<open>
  \<^verbatim>\<open>arr[i]\<close> read through the pointer \<open>p\<close>, and the C string at a pointer; \<open>None\<close> when the
  read is not one of an allocated block of the right shape.
\<close>

definition load_ptr :: "heap \<Rightarrow> ptr \<Rightarrow> nat \<Rightarrow> ptr option" where
  "load_ptr h p i =
     (case p of
        None \<Rightarrow> None
      | Some a \<Rightarrow>
          (case blk h a of
             Some (Ptrs ps) \<Rightarrow> if i < length ps then Some (ps ! i) else None
           | _ \<Rightarrow> None))"

definition load_str :: "heap \<Rightarrow> ptr \<Rightarrow> string option" where
  "load_str h p =
     (case p of
        None \<Rightarrow> None
      | Some a \<Rightarrow> (case blk h a of Some (Chars s) \<Rightarrow> Some s | _ \<Rightarrow> None))"

text \<open>The strings an argument vector of \<open>n\<close> entries at \<open>p\<close> holds, entry by entry.\<close>

definition argv_strings :: "heap \<Rightarrow> ptr \<Rightarrow> nat \<Rightarrow> string option list" where
  "argv_strings h p n =
     map (\<lambda>i. case load_ptr h p i of None \<Rightarrow> None | Some q \<Rightarrow> load_str h q) [0..<n]"

text \<open>\<^verbatim>\<open>malloc(sizeof(char *) * n)\<close>; the entries are indeterminate in C and are written
  before they are read, here they start as \<^verbatim>\<open>NULL\<close>.\<close>

definition malloc_ptrs :: "nat \<Rightarrow> heap \<Rightarrow> ptr \<times> heap" where
  "malloc_ptrs n h = alloc (Ptrs (replicate n None)) h"

text \<open>\<^verbatim>\<open>calloc(n, sizeof(char))\<close>: a zero-filled character buffer.\<close>

definition calloc_chars :: "nat \<Rightarrow> heap \<Rightarrow> ptr \<times> heap" where
  "calloc_chars n h = alloc (Chars []) h"

text \<open>\<^verbatim>\<open>memset(p, 0, n)\<close> on a character buffer.\<close>

definition memset_zero :: "ptr \<Rightarrow> heap \<Rightarrow> heap" where
  "memset_zero p h = (case p of None \<Rightarrow> h | Some a \<Rightarrow> heap_store a (Chars []) h)"

text \<open>
  Modelled from the spec: \<^verbatim>\<open>mosh_strdup\<close> is declared in \<^verbatim>\<open>utils/str_utils.h\<close>, which is not
  among the sources. It yields an independently owned copy of the string in a block of
  its own, or \<^verbatim>\<open>NULL\<close> when the allocation fails.
\<close>

definition mosh_strdup :: "string \<Rightarrow> heap \<Rightarrow> ptr \<times> heap" where
  "mosh_strdup s h = alloc (Chars s) h"

section \<open>Faults\<close>

text \<open>
  A run of a function ends in a fault when an \<^verbatim>\<open>assert\<close> fails, or when the code reads
  or writes outside the memory it may use: a read beyond the caller's argument list or
  through a pointer that is not allocated, a write through \<^verbatim>\<open>NULL\<close>, a write beyond the end
  of a buffer.
\<close>

datatype fault = Assertion_failed | Invalid_read | Null_dereference | Buffer_overflow

section \<open>Argument vectors\<close>

text \<open>
  \<^verbatim>\<open>th_ctrl_util_duplicate_argv(argc, argv)\<close>. The caller's vector \<open>av\<close> is a list of
  strings; reading \<open>av[i]\<close> beyond its end is a fault. The loop runs from \<open>i\<close>; \<open>arr\<close> is
  \<^verbatim>\<open>ptr_array\<close>. When a copy cannot be allocated the array is freed and \<^verbatim>\<open>NULL\<close> returned.
\<close>

function duplicate_argv_loop ::
  "nat \<Rightarrow> nat \<Rightarrow> string list \<Rightarrow> addr \<Rightarrow> heap \<Rightarrow> fault + (ptr \<times> heap)" where
  "duplicate_argv_loop i ac av arr h =
     (if i < ac then
        (if i < length av then
           (case mosh_strdup (av ! i) h of
              (None, h1) \<Rightarrow> Inr (None, heap_free (Some arr) (store_ptr arr i None h1))
            | (Some q, h1) \<Rightarrow> duplicate_argv_loop (Suc i) ac av arr (store_ptr arr i (Some q) h1))
         else Inl Invalid_read)
      else Inr (Some arr, h))"
  by pat_completeness auto
termination
  by (relation "measure (\<lambda>(i, ac, av, arr, h). ac - i)") auto

definition th_ctrl_util_duplicate_argv ::
  "nat \<Rightarrow> string list \<Rightarrow> heap \<Rightarrow> fault + (ptr \<times> heap)" where
  "th_ctrl_util_duplicate_argv ac av h =
     (case malloc_ptrs ac h of
        (None, h1) \<Rightarrow> Inr (None, h1)
      | (Some arr, h1) \<Rightarrow> duplicate_argv_loop 0 ac av arr h1)"

text \<open>
  \<^verbatim>\<open>th_ctrl_util_duplicate_argv_free(argc, argv)\<close>: the loop
  \<^verbatim>\<open>for (i = 1; i < argc; i++) free(argv[i]);\<close> and then \<^verbatim>\<open>free(argv)\<close>.
\<close>

function duplicate_argv_free_loop :: "nat \<Rightarrow> nat \<Rightarrow> ptr \<Rightarrow> heap \<Rightarrow> heap" where
  "duplicate_argv_free_loop i ac p h =
     (if i < ac then
        duplicate_argv_free_loop (Suc i) ac p
          (heap_free (case load_ptr h p i of None \<Rightarrow> None | Some q \<Rightarrow> q) h)
      else h)"
  by pat_completeness auto
termination
  by (relation "measure (\<lambda>(i, ac, p, h). ac - i)") auto

definition th_ctrl_util_duplicate_argv_free :: "nat \<Rightarrow> ptr \<Rightarrow> heap \<Rightarrow> heap" where
  "th_ctrl_util_duplicate_argv_free ac p h = heap_free p (duplicate_argv_free_loop 1 ac p h)"

section \<open>Kernel objects and shell output\<close>

text \<open>
  \<^verbatim>\<open>struct k_work\<close>, as far as the controller looks at it: what \<^verbatim>\<open>k_work_is_pending\<close>
  answers, and the work queue the item was last submitted to.
\<close>

record k_work =
  pending :: bool
  queue :: "nat option"

definition k_work_is_pending :: "k_work \<Rightarrow> bool" where
  "k_work_is_pending w = pending w"

definition k_work_submit_to_queue :: "nat \<Rightarrow> k_work \<Rightarrow> k_work" where
  "k_work_submit_to_queue q w = w\<lparr>pending := True, queue := Some q\<rparr>"

text \<open>\<^verbatim>\<open>struct k_poll_signal\<close>: raising it sets \<open>signaled\<close> and stores the value.\<close>

record k_poll_signal =
  signaled :: bool
  result :: int

definition k_poll_signal_raise :: "k_poll_signal \<Rightarrow> int \<Rightarrow> k_poll_signal" where
  "k_poll_signal_raise sig v = sig\<lparr>signaled := True, result := v\<rparr>"

text \<open>
  The shell handle, as far as the controller reads it: \<^verbatim>\<open>shell->ctx->cmd_buff_len\<close>, the
  length of the command line being executed.
\<close>

record shell =
  cmd_buff_len :: nat

text \<open>
  A line given to \<^verbatim>\<open>shell_print\<close> or \<^verbatim>\<open>shell_error\<close>: the format string of the source and
  its arguments. \<open>Null_arg\<close> is a \<^verbatim>\<open>NULL\<close> pointer given for a \<^verbatim>\<open>%s\<close>.
\<close>

datatype fmt_arg = Int_arg int | Str_arg string | Null_arg

datatype shell_out = Shell_print string "fmt_arg list" | Shell_error string "fmt_arg list"

section \<open>A job slot\<close>

record th_ctrl_data =
  shell :: "shell option"
  work :: k_work
  kill_signal :: k_poll_signal
  results_str :: ptr
  argv :: ptr
  argc :: nat
  cmd_len :: nat
  th_nbr :: nat
  cmd_str :: ptr
  background :: bool

definition TH_RESPONSE_BUFFER_SIZE :: nat where
  "TH_RESPONSE_BUFFER_SIZE = 10240"

text \<open>
  \<^verbatim>\<open>th_ctrl_get_command_str_from_argv(argc, argv, out_buf, out_buf_len)\<close>. The vector is
  read from the heap. \<open>cap\<close> is the size of the block behind \<^verbatim>\<open>out_buf\<close>, or \<open>None\<close> when
  \<^verbatim>\<open>out_buf\<close> is \<^verbatim>\<open>NULL\<close>, and \<open>buf\<close> the string written so far.
  \<^verbatim>\<open>sprintf(out_buf + total_len, "%s ", argv[i])\<close> writes the argument, a space and a NUL
  from offset \<open>total_len\<close> on: a fault when \<^verbatim>\<open>out_buf\<close> is \<^verbatim>\<open>NULL\<close> or when that does not fit
  the block. The function returns \<^verbatim>\<open>out_buf\<close>; the result here is the string written.
\<close>

function get_command_str_loop ::
  "heap \<Rightarrow> nat \<Rightarrow> ptr \<Rightarrow> nat \<Rightarrow> nat option \<Rightarrow> nat \<Rightarrow> nat \<Rightarrow> string \<Rightarrow> fault + string" where
  "get_command_str_loop h ac p out_buf_len cap i total_len buf =
     (if i < ac then
        (case (case load_ptr h p i of None \<Rightarrow> None | Some q \<Rightarrow> load_str h q) of
           None \<Rightarrow> Inl Invalid_read
         | Some a \<Rightarrow>
             (if total_len + length a > out_buf_len then Inr buf
              else
                (case cap of
                   None \<Rightarrow> Inl Null_dereference
                 | Some c \<Rightarrow>
                     if total_len + length a + 2 > c then Inl Buffer_overflow
                     else get_command_str_loop h ac p out_buf_len cap (Suc i)
                            (length (take total_len buf @ a @ '' ''))
                            (take total_len buf @ a @ '' ''))))
      else Inr buf)"
  by pat_completeness auto
termination
  by (relation "measure (\<lambda>(h, ac, p, out_buf_len, cap, i, total_len, buf). ac - i)") auto

definition th_ctrl_get_command_str_from_argv ::
  "heap \<Rightarrow> nat \<Rightarrow> ptr \<Rightarrow> nat option \<Rightarrow> nat \<Rightarrow> fault + string" where
  "th_ctrl_get_command_str_from_argv h ac p cap out_buf_len =
     get_command_str_loop h ac p out_buf_len cap 0 0 []"

text \<open>
  \<^verbatim>\<open>th_ctrl_data_status_print(shell, data)\<close>: the lines printed, in order, and then either
  the heap the call leaves or the fault that ends it. The header is printed before the
  result buffer is looked at, and the lines about the results and the running state
  before the print buffer of \<open>cmd_len + 1\<close> bytes is allocated. The result of that
  \<^verbatim>\<open>calloc\<close> is not checked: when it is \<^verbatim>\<open>NULL\<close>, the first \<^verbatim>\<open>sprintf\<close> writes through
  \<^verbatim>\<open>NULL\<close>, and if the loop never reaches a \<^verbatim>\<open>sprintf\<close> the \<^verbatim>\<open>NULL\<close> pointer itself is
  printed. \<open>out_buf_len\<close> is a \<^verbatim>\<open>uint16_t\<close>.
\<close>

definition th_ctrl_data_status_print ::
  "th_ctrl_data \<Rightarrow> heap \<Rightarrow> shell_out list \<times> (fault + heap)" where
  "th_ctrl_data_status_print d h =
     (let hdr = Shell_print ''thread #%d status:'' [Int_arg (int (th_nbr d))] in
      if results_str d = None then ([hdr, Shell_print ''  Nothing'' []], Inr h)
      else
        (case load_str h (results_str d) of
           None \<Rightarrow> ([hdr], Inl Invalid_read)
         | Some res \<Rightarrow>
             if length res = 0 then ([hdr, Shell_print ''  Nothing'' []], Inr h)
             else
               (let avail = Shell_print ''  Results available'' [];
                    run = (if k_work_is_pending (work d)
                           then Shell_print ''  thread is running'' []
                           else Shell_print ''  thread is not running'' [])
                in case calloc_chars (cmd_len d + 1) h of
                     (print_buf, h1) \<Rightarrow>
                       (case th_ctrl_get_command_str_from_argv h1 (argc d) (argv d)
                               (case print_buf of None \<Rightarrow> None
                                | Some b \<Rightarrow> Some (cmd_len d + 1))
                               ((cmd_len d + 1) mod 65536) of
                          Inl f \<Rightarrow> ([hdr, avail, run], Inl f)
                        | Inr s \<Rightarrow>
                            ([hdr, avail, run,
                              Shell_print ''  command: %s''
                                [case print_buf of None \<Rightarrow> Null_arg | Some b \<Rightarrow> Str_arg s]],
                             Inr (heap_free print_buf h1))))))"

text \<open>\<^verbatim>\<open>th_ctrl_data_result_print(shell, data)\<close>.\<close>

definition th_ctrl_data_result_print ::
  "th_ctrl_data \<Rightarrow> heap \<Rightarrow> fault + (th_ctrl_data \<times> heap \<times> shell_out list)" where
  "th_ctrl_data_result_print d h =
     (let none = Shell_print ''No results for thread #%d'' [Int_arg (int (th_nbr d))] in
      if results_str d = None then Inr (d, h, [none])
      else
        (case load_str h (results_str d) of
           None \<Rightarrow> Inl Invalid_read
         | Some res \<Rightarrow>
             if length res = 0 then Inr (d, h, [none])
             else
               (let out = [Shell_print ''thread #%d results:'' [Int_arg (int (th_nbr d))],
                           Shell_print ''-------------------------------------'' [],
                           Shell_print ''%s'' [Str_arg res],
                           Shell_print ''-------------------------------------'' []]
                in if \<not> k_work_is_pending (work d) then
                     Inr (d\<lparr>results_str := None, argc := 0, argv := None\<rparr>,
                          th_ctrl_util_duplicate_argv_free (argc d) (argv d)
                            (heap_free (results_str d) h),
                          out @ [Shell_print ''Note: th results #%d were deleted.''
                                   [Int_arg (int (th_nbr d))]])
                   else Inr (d, h, out))))"

text \<open>
  \<^verbatim>\<open>th_ctrl_data_start(data, shell, argc, argv, is_background)\<close>, in two parts: the result
  buffer (up to the early return when it cannot be allocated), and from
  \<^verbatim>\<open>assert(argc > 1)\<close> on. \<open>ac\<close> and \<open>av\<close> are the caller's \<^verbatim>\<open>argc\<close> and \<^verbatim>\<open>argv\<close>;
  \<^verbatim>\<open>&argv[1]\<close> is \<open>drop 1 av\<close>.
\<close>

definition th_ctrl_data_start_argv ::
  "th_ctrl_data \<Rightarrow> shell \<Rightarrow> nat \<Rightarrow> string list \<Rightarrow> bool \<Rightarrow> heap
     \<Rightarrow> fault + (th_ctrl_data \<times> heap \<times> shell_out list)" where
  "th_ctrl_data_start_argv d sh ac av is_background h =
     (if \<not> 1 < ac then Inl Assertion_failed
      else
        (let h1 = (if argv d \<noteq> None
                   then th_ctrl_util_duplicate_argv_free (argc d) (argv d) h else h);
             d1 = d\<lparr>argc := ac - 1\<rparr>
         in case th_ctrl_util_duplicate_argv (ac - 1) (drop 1 av) h1 of
              Inl f \<Rightarrow> Inl f
            | Inr (None, h2) \<Rightarrow>
                Inr (d1\<lparr>argv := None\<rparr>, h2,
                     [Shell_error ''Cannot start a thread: no memory for duplicated cmd args'' []])
            | Inr (Some a, h2) \<Rightarrow>
                (let d2 = d1\<lparr>argv := Some a, background := is_background,
                               shell := Some sh, cmd_len := cmd_buff_len sh mod 65536\<rparr>
                 in if th_nbr d2 = 1
                    then Inr (d2\<lparr>work := k_work_submit_to_queue 1 (work d2)\<rparr>, h2, [])
                    else if th_nbr d2 = 2
                    then Inr (d2\<lparr>work := k_work_submit_to_queue 2 (work d2)\<rparr>, h2, [])
                    else Inl Assertion_failed)))"

definition th_ctrl_data_start ::
  "th_ctrl_data \<Rightarrow> shell \<Rightarrow> nat \<Rightarrow> string list \<Rightarrow> bool \<Rightarrow> heap
     \<Rightarrow> fault + (th_ctrl_data \<times> heap \<times> shell_out list)" where
  "th_ctrl_data_start d sh ac av is_background h =
     (if k_work_is_pending (work d) then Inl Assertion_failed
      else
        (let (d1, h1) = (if \<not> is_background \<and> results_str d \<noteq> None
                         then (d\<lparr>results_str := None\<rparr>, heap_free (results_str d) h)
                         else (d, h))
         in if is_background \<and> results_str d1 = None then
              (case calloc_chars TH_RESPONSE_BUFFER_SIZE h1 of
                 (None, h2) \<Rightarrow>
                   Inr (d1\<lparr>results_str := None\<rparr>, h2,
                        [Shell_error ''Cannot start a thread: no memory to store a response'' []])
               | (Some r, h2) \<Rightarrow>
                   th_ctrl_data_start_argv (d1\<lparr>results_str := Some r\<rparr>) sh ac av is_background h2)
            else if results_str d1 \<noteq> None then
              th_ctrl_data_start_argv d1 sh ac av is_background (memset_zero (results_str d1) h1)
            else th_ctrl_data_start_argv d1 sh ac av is_background h1))"

text \<open>
  \<^verbatim>\<open>th_ctrl_work_handler(work_item)\<close>, run by the slot's work queue. The job body
  \<^verbatim>\<open>iperf_main\<close> is not part of the controller: \<open>txt\<close> is what it writes to the buffer
  it is given (at most the buffer's capacity, the terminating NUL included) and \<open>ret\<close> the
  value it returns. When the handler has returned, the queue no longer holds the item
  (\<open>work_done\<close>).
\<close>

definition th_ctrl_work_handler ::
  "th_ctrl_data \<Rightarrow> string \<Rightarrow> int \<Rightarrow> heap \<Rightarrow> fault + (heap \<times> shell_out list)" where
  "th_ctrl_work_handler d txt ret h =
     (let start = Shell_print ''Starting a thread #%d'' [Int_arg (int (th_nbr d))];
          line = Shell_print ''--------------------------------------------------'' [];
          returned = Shell_print ''iperf_main returned %d from a thread #%d''
                       [Int_arg ret, Int_arg (int (th_nbr d))]
      in if argv d = None then Inl Assertion_failed
         else if background d then
           (case results_str d of
              None \<Rightarrow> Inl Assertion_failed
            | Some r \<Rightarrow>
                Inr (heap_store r (Chars (take (TH_RESPONSE_BUFFER_SIZE - 1) txt)) h,
                     [start, line, returned,
                      Shell_print ''Use shell command to print results: \"th results %d\"''
                        [Int_arg (int (th_nbr d))],
                      line]))
         else if results_str d \<noteq> None then Inl Assertion_failed
         else Inr (h, [start, line, returned, line]))"

definition work_done :: "th_ctrl_data \<Rightarrow> th_ctrl_data" where
  "work_done d = d\<lparr>work := (work d)\<lparr>pending := False\<rparr>\<rparr>"

section \<open>The controller\<close>

text \<open>
  The two static slots \<^verbatim>\<open>th_work_data_1\<close> and \<^verbatim>\<open>th_work_data_2\<close>, the heap, and the lines
  printed so far.
\<close>

record th_state =
  th_work_data_1 :: th_ctrl_data
  th_work_data_2 :: th_ctrl_data
  mem :: heap
  console :: "shell_out list"

text \<open>\<^verbatim>\<open>th_ctrl_init\<close>: the statics are zero-initialised, the slot numbers are set.\<close>

definition zero_data :: th_ctrl_data where
  "zero_data =
     \<lparr>shell = None, work = \<lparr>pending = False, queue = None\<rparr>,
      kill_signal = \<lparr>signaled = False, result = 0\<rparr>,
      results_str = None, argv = None, argc = 0, cmd_len = 0, th_nbr = 0,
      cmd_str = None, background = False\<rparr>"

definition th_ctrl_init :: "heap \<Rightarrow> th_state" where
  "th_ctrl_init h =
     \<lparr>th_work_data_1 = zero_data\<lparr>th_nbr := 1\<rparr>,
      th_work_data_2 = zero_data\<lparr>th_nbr := 2\<rparr>,
      mem = h, console = []\<rparr>"

text \<open>The slot a slot number names.\<close>

definition slot :: "th_state \<Rightarrow> int \<Rightarrow> th_ctrl_data" where
  "slot s nbr = (if nbr = 1 then th_work_data_1 s else th_work_data_2 s)"

text \<open>
  \<^verbatim>\<open>th_ctrl_status_print(shell)\<close>: slot 1, then slot 2. A fault ends the run with the
  lines printed up to it.
\<close>

definition th_ctrl_status_print :: "th_state \<Rightarrow> fault option \<times> th_state" where
  "th_ctrl_status_print s =
     (case th_ctrl_data_status_print (th_work_data_1 s) (mem s) of
        (out1, Inl f) \<Rightarrow> (Some f, s\<lparr>console := console s @ out1\<rparr>)
      | (out1, Inr h1) \<Rightarrow>
          (case th_ctrl_data_status_print (th_work_data_2 s) h1 of
             (out2, Inl f) \<Rightarrow> (Some f, s\<lparr>mem := h1, console := console s @ out1 @ out2\<rparr>)
           | (out2, Inr h2) \<Rightarrow> (None, s\<lparr>mem := h2, console := console s @ out1 @ out2\<rparr>)))"

definition th_ctrl_kill_em_all :: "th_state \<Rightarrow> th_state" where
  "th_ctrl_kill_em_all s =
     (let s1 = (if k_work_is_pending (work (th_work_data_1 s))
                then s\<lparr>th_work_data_1 := (th_work_data_1 s)
                       \<lparr>kill_signal := k_poll_signal_raise (kill_signal (th_work_data_1 s)) 1\<rparr>\<rparr>
                else s)
      in if k_work_is_pending (work (th_work_data_2 s1))
         then s1\<lparr>th_work_data_2 := (th_work_data_2 s1)
                \<lparr>kill_signal := k_poll_signal_raise (kill_signal (th_work_data_2 s1)) 2\<rparr>\<rparr>
         else s1)"

definition th_ctrl_kill :: "th_state \<Rightarrow> int \<Rightarrow> th_state" where
  "th_ctrl_kill s nbr =
     (if nbr = 1 then
        (if k_work_is_pending (work (th_work_data_1 s))
         then s\<lparr>th_work_data_1 := (th_work_data_1 s)
                \<lparr>kill_signal := k_poll_signal_raise (kill_signal (th_work_data_1 s)) 1\<rparr>\<rparr>
         else s\<lparr>console := console s @ [Shell_print ''Thread #1 not running'' []]\<rparr>)
      else if nbr = 2 then
        (if k_work_is_pending (work (th_work_data_2 s))
         then s\<lparr>th_work_data_2 := (th_work_data_2 s)
                \<lparr>kill_signal := k_poll_signal_raise (kill_signal (th_work_data_2 s)) 2\<rparr>\<rparr>
         else s\<lparr>console := console s @ [Shell_print ''Thread #2 not running'' []]\<rparr>)
      else s)"

definition th_ctrl_result_print :: "th_state \<Rightarrow> int \<Rightarrow> fault + th_state" where
  "th_ctrl_result_print s nbr =
     (if nbr = 1 then
        (case th_ctrl_data_result_print (th_work_data_1 s) (mem s) of
           Inl f \<Rightarrow> Inl f
         | Inr (d, h, out) \<Rightarrow>
             Inr (s\<lparr>th_work_data_1 := d, mem := h, console := console s @ out\<rparr>))
      else if nbr = 2 then
        (case th_ctrl_data_result_print (th_work_data_2 s) (mem s) of
           Inl f \<Rightarrow> Inl f
         | Inr (d, h, out) \<Rightarrow>
             Inr (s\<lparr>th_work_data_2 := d, mem := h, console := console s @ out\<rparr>))
      else Inr s)"

text \<open>
  \<^verbatim>\<open>th_ctrl_start(shell, argc, argv, is_background)\<close>. \<^verbatim>\<open>strcmp(argv[1], "iperf3")\<close> reads
  the caller's second entry before anything else.
\<close>

definition th_ctrl_start ::
  "th_state \<Rightarrow> shell \<Rightarrow> nat \<Rightarrow> string list \<Rightarrow> bool \<Rightarrow> fault + th_state" where
  "th_ctrl_start s sh ac av is_background =
     (if \<not> 1 < length av then Inl Invalid_read
      else if av ! 1 \<noteq> ''iperf3'' then
        Inr (s\<lparr>console := console s @ [Shell_error ''Only iperf3 is supported currently.'' []]\<rparr>)
      else
        (let s1 = s\<lparr>console := console s @ [Shell_print ''Starting ...'' []]\<rparr>
         in if \<not> k_work_is_pending (work (th_work_data_1 s1)) then
              (case th_ctrl_data_start (th_work_data_1 s1) sh ac av is_background (mem s1) of
                 Inl f \<Rightarrow> Inl f
               | Inr (d, h, out) \<Rightarrow>
                   Inr (s1\<lparr>th_work_data_1 := d, mem := h, console := console s1 @ out\<rparr>))
            else if \<not> k_work_is_pending (work (th_work_data_2 s1)) then
              (case th_ctrl_data_start (th_work_data_2 s1) sh ac av is_background (mem s1) of
                 Inl f \<Rightarrow> Inl f
               | Inr (d, h, out) \<Rightarrow>
                   Inr (s1\<lparr>th_work_data_2 := d, mem := h, console := console s1 @ out\<rparr>))
            else
              Inr (s1\<lparr>console := console s1 @
                     [Shell_error ''Worker threads are all busy. Try again later.'' []]\<rparr>)))"

section \<open>Notions used in the statements\<close>

text \<open>The next \<open>k\<close> allocation requests all succeed.\<close>

definition allocs_succeed :: "nat \<Rightarrow> heap \<Rightarrow> bool" where
  "allocs_succeed k h = list_all (\<lambda>ok. ok) (take k (outcomes h))"

text \<open>
  The allocation requests a start on slot \<open>d\<close> with \<open>ac\<close> arguments makes when none fails:
  the result buffer if a background job finds none, the array of \<open>ac - 1\<close> pointers and
  the \<open>ac - 1\<close> copies.
\<close>

definition allocs_needed :: "th_ctrl_data \<Rightarrow> nat \<Rightarrow> bool \<Rightarrow> nat" where
  "allocs_needed d ac is_background =
     (if is_background \<and> results_str d = None then Suc ac else ac)"

text \<open>
  The pointers a slot holds: its result buffer, its argument array, and the entries of
  that array as the heap has them.
\<close>

definition array_entries :: "block option \<Rightarrow> ptr list" where
  "array_entries b = (case b of Some (Ptrs ps) \<Rightarrow> ps | _ \<Rightarrow> [])"

definition slot_pointers :: "th_ctrl_data \<Rightarrow> heap \<Rightarrow> ptr list" where
  "slot_pointers d h =
     results_str d # argv d #
     (case argv d of None \<Rightarrow> [] | Some a \<Rightarrow> array_entries (blk h a))"

text \<open>
  The pointers of the slot are valid: each is \<^verbatim>\<open>NULL\<close> or the address of an allocated block,
  the result buffer is a character buffer, the argument array is an array, and the array
  does not hold the result buffer.
\<close>

definition slot_blocks_ok :: "th_ctrl_data \<Rightarrow> heap \<Rightarrow> bool" where
  "slot_blocks_ok d h =
     ((case results_str d of
         None \<Rightarrow> True
       | Some r \<Rightarrow> (case blk h r of Some (Chars s) \<Rightarrow> True | _ \<Rightarrow> False)) \<and>
      (case argv d of
         None \<Rightarrow> True
       | Some a \<Rightarrow>
           (case blk h a of
              Some (Ptrs ps) \<Rightarrow>
                list_all (\<lambda>q. case q of None \<Rightarrow> True
                               | Some x \<Rightarrow> blk h x \<noteq> None \<and> Some x \<noteq> results_str d) ps
            | _ \<Rightarrow> False)))"

text \<open>The arguments in order, each followed by one space, as \<^verbatim>\<open>sprintf("%s ")\<close> lays them out.\<close>

definition command_line :: "string list \<Rightarrow> string" where
  "command_line args = concat (map (\<lambda>a. a @ '' '') args)"

declare duplicate_argv_loop.simps [simp del]
declare duplicate_argv_free_loop.simps [simp del]
declare get_command_str_loop.simps [simp del]

text \<open>The defining equations, for evaluating the functions on concrete inputs.\<close>

lemmas heap_eval = alloc_def fresh_addr_def heap_free_def heap_store_def store_ptr_def blk_def
  load_ptr_def load_str_def argv_strings_def malloc_ptrs_def calloc_chars_def memset_zero_def
  mosh_strdup_def duplicate_argv_loop.simps th_ctrl_util_duplicate_argv_def
  duplicate_argv_free_loop.simps th_ctrl_util_duplicate_argv_free_def
  get_command_str_loop.simps th_ctrl_get_command_str_from_argv_def numeral_2_eq_2

lemmas slot_eval = k_work_is_pending_def k_work_submit_to_queue_def k_poll_signal_raise_def
  th_ctrl_data_status_print_def th_ctrl_data_result_print_def th_ctrl_data_start_argv_def
  th_ctrl_data_start_def th_ctrl_work_handler_def work_done_def zero_data_def
  TH_RESPONSE_BUFFER_SIZE_def allocs_succeed_def allocs_needed_def command_line_def Let_def
  array_entries_def slot_pointers_def slot_blocks_ok_def

lemmas ctrl_eval = th_ctrl_init_def slot_def th_ctrl_status_print_def
  th_ctrl_kill_em_all_def th_ctrl_kill_def th_ctrl_result_print_def th_ctrl_start_def

section \<open>The heap operations\<close>

lemma fold_max_ge: "(m::nat) \<le> fold max xs m"
  by (induction xs arbitrary: m) (auto intro: order_trans [OF max.cobounded2])

lemma fold_max_mem: "a \<in> set xs \<Longrightarrow> (a::nat) \<le> fold max xs m"
proof (induction xs arbitrary: m)
  case Nil
  then show ?case by simp
next
  case (Cons x xs)
  show ?case
  proof (cases "a = x")
    case True
    have "a \<le> max x m" using True by simp
    also have "\<dots> \<le> fold max xs (max x m)" by (rule fold_max_ge)
    finally show ?thesis by simp
  next
    case False
    with Cons show ?thesis by simp
  qed
qed

lemma blk_fresh_addr [simp]: "blk h (fresh_addr h) = None"
proof -
  have "fresh_addr h \<notin> fst ` set (live h)"
  proof
    assume "fresh_addr h \<in> fst ` set (live h)"
    then have "fresh_addr h \<in> set (map fst (live h))" by simp
    then have "fresh_addr h \<le> fold max (map fst (live h)) 0" by (rule fold_max_mem)
    then show False by (simp add: fresh_addr_def)
  qed
  then show ?thesis by (simp add: blk_def map_of_eq_None_iff)
qed

lemma blk_heap_free [simp]: "blk (heap_free (Some a) h) = (blk h)(a := None)"
  by (rule ext) (simp add: heap_free_def blk_def delete_conv')

lemma heap_free_None [simp]: "heap_free None h = h"
  by (simp add: heap_free_def)

lemma outcomes_heap_free [simp]: "outcomes (heap_free p h) = outcomes h"
  by (simp add: heap_free_def split: option.splits)

lemma blk_heap_store: "blk (heap_store a b h) = (if blk h a = None then blk h else (blk h)(a \<mapsto> b))"
  by (rule ext) (simp add: heap_store_def blk_def update_conv')

lemma outcomes_heap_store [simp]: "outcomes (heap_store a b h) = outcomes h"
  by (simp add: heap_store_def)

lemma outcomes_store_ptr [simp]: "outcomes (store_ptr a i q h) = outcomes h"
  by (simp add: store_ptr_def split: option.splits block.splits)

lemma blk_store_ptr:
  "blk h a = Some (Ptrs ps) \<Longrightarrow> i < length ps \<Longrightarrow>
   blk (store_ptr a i q h) = (blk h)(a \<mapsto> Ptrs (ps[i := q]))"
  by (simp add: store_ptr_def blk_heap_store)

lemma alloc_cases:
  "(\<exists>h'. alloc b h = (None, h') \<and> live h' = live h \<and> outcomes h = False # outcomes h') \<or>
   (\<exists>h'. alloc b h = (Some (fresh_addr h), h') \<and> blk h' = (blk h)(fresh_addr h \<mapsto> b) \<and>
         outcomes h' = drop 1 (outcomes h) \<and> allocs_succeed 1 h)"
  by (cases "outcomes h") (auto simp: alloc_def blk_def allocs_succeed_def)

lemma allocs_succeed_Suc:
  "allocs_succeed (Suc k) h \<longleftrightarrow> allocs_succeed 1 h \<and> allocs_succeed k (h\<lparr>outcomes := drop 1 (outcomes h)\<rparr>)"
  by (cases "outcomes h") (auto simp: allocs_succeed_def)

lemma allocs_succeed_cong: "outcomes h = outcomes h' \<Longrightarrow> allocs_succeed k h = allocs_succeed k h'"
  by (simp add: allocs_succeed_def)

lemma alloc_succeeds:
  "allocs_succeed (Suc k) h \<Longrightarrow>
   \<exists>h'. alloc b h = (Some (fresh_addr h), h') \<and> blk h' = (blk h)(fresh_addr h \<mapsto> b) \<and>
        outcomes h' = drop 1 (outcomes h) \<and> allocs_succeed k h'"
  by (cases "outcomes h") (auto simp: alloc_def blk_def allocs_succeed_def)

lemma outcomes_free_loop [simp]:
  "outcomes (duplicate_argv_free_loop i ac p h) = outcomes h"
proof (induction "ac - i" arbitrary: i h)
  case 0
  then show ?case by (simp add: duplicate_argv_free_loop.simps)
next
  case (Suc k)
  then have "ac - Suc i = k" "i < ac" by auto
  with Suc.hyps(1) [of "Suc i"] show ?case
    by (subst duplicate_argv_free_loop.simps) simp
qed

lemma outcomes_duplicate_argv_free [simp]:
  "outcomes (th_ctrl_util_duplicate_argv_free ac p h) = outcomes h"
  by (simp add: th_ctrl_util_duplicate_argv_free_def)

lemma duplicate_argv_loop_result:
  assumes "ac \<le> length av"
  shows "\<exists>h'. duplicate_argv_loop i ac av arr h =
           Inr (if allocs_succeed (ac - i) h then Some arr else None, h')"
proof (induction "ac - i" arbitrary: i h)
  case 0
  then show ?case
    by (subst duplicate_argv_loop.simps) (simp add: allocs_succeed_def)
next
  case (Suc k)
  then have k: "ac - Suc i = k" and i: "i < ac" "i < length av" using assms by auto
  from alloc_cases [of "Chars (av ! i)" h] show ?case
  proof (elim disjE exE conjE)
    fix h1
    assume a: "alloc (Chars (av ! i)) h = (None, h1)" and o: "outcomes h = False # outcomes h1"
    have "\<not> allocs_succeed (ac - i) h"
      using o Suc.hyps(2) [symmetric] by (simp add: allocs_succeed_def)
    then show ?thesis using a i
      by (subst duplicate_argv_loop.simps) (simp add: mosh_strdup_def)
  next
    fix h1
    assume a: "alloc (Chars (av ! i)) h = (Some (fresh_addr h), h1)"
      and o: "outcomes h1 = drop 1 (outcomes h)" and s1: "allocs_succeed 1 h"
    let ?h2 = "store_ptr arr i (Some (fresh_addr h)) h1"
    from Suc.hyps(1) [OF k [symmetric], of ?h2] obtain h' where
      r: "duplicate_argv_loop (Suc i) ac av arr ?h2 =
            Inr (if allocs_succeed (ac - Suc i) ?h2 then Some arr else None, h')" by blast
    have "allocs_succeed (ac - Suc i) ?h2 = allocs_succeed k (h\<lparr>outcomes := drop 1 (outcomes h)\<rparr>)"
      using k o by (simp add: allocs_succeed_def)
    then have "allocs_succeed (ac - i) h \<longleftrightarrow> allocs_succeed (ac - Suc i) ?h2"
      using s1 Suc.hyps(2) [symmetric] by (simp add: allocs_succeed_Suc [of k])
    with r a i show ?thesis
      by (subst duplicate_argv_loop.simps) (simp add: mosh_strdup_def)
  qed
qed

lemma th_ctrl_util_duplicate_argv_result:
  assumes "ac \<le> length av"
  shows "\<exists>p h'. th_ctrl_util_duplicate_argv ac av h = Inr (p, h') \<and>
           (p = None \<longleftrightarrow> \<not> allocs_succeed (Suc ac) h)"
proof -
  from alloc_cases [of "Ptrs (replicate ac None)" h] show ?thesis
  proof (elim disjE exE conjE)
    fix h1
    assume a: "alloc (Ptrs (replicate ac None)) h = (None, h1)"
      and o: "outcomes h = False # outcomes h1"
    have "\<not> allocs_succeed (Suc ac) h" using o by (simp add: allocs_succeed_def)
    with a show ?thesis by (simp add: th_ctrl_util_duplicate_argv_def malloc_ptrs_def)
  next
    fix h1
    assume a: "alloc (Ptrs (replicate ac None)) h = (Some (fresh_addr h), h1)"
      and o: "outcomes h1 = drop 1 (outcomes h)" and s1: "allocs_succeed 1 h"
    from duplicate_argv_loop_result [OF assms, of 0 "fresh_addr h" h1] obtain h' where
      r: "duplicate_argv_loop 0 ac av (fresh_addr h) h1 =
            Inr (if allocs_succeed ac h1 then Some (fresh_addr h) else None, h')" by auto
    have "allocs_succeed ac h1 = allocs_succeed ac (h\<lparr>outcomes := drop 1 (outcomes h)\<rparr>)"
      using o by (simp add: allocs_succeed_def)
    then have "allocs_succeed (Suc ac) h \<longleftrightarrow> allocs_succeed ac h1"
      using s1 by (simp add: allocs_succeed_Suc [of ac])
    with r a show ?thesis
      by (simp add: th_ctrl_util_duplicate_argv_def malloc_ptrs_def)
  qed
qed

lemma duplicate_argv_loop_success:
  assumes "ac \<le> length av"
  shows "allocs_succeed (ac - i) h \<Longrightarrow> blk h arr = Some (Ptrs ps) \<Longrightarrow> length ps = ac \<Longrightarrow>
    \<exists>h' ps'. duplicate_argv_loop i ac av arr h = Inr (Some arr, h') \<and>
       blk h' arr = Some (Ptrs ps') \<and> length ps' = ac \<and>
       (\<forall>j<i. ps' ! j = ps ! j) \<and>
       (\<forall>j. i \<le> j \<and> j < ac \<longrightarrow>
          (\<exists>q. ps' ! j = Some q \<and> q \<noteq> arr \<and> blk h q = None \<and>
               blk h' q = Some (Chars (av ! j)))) \<and>
       (\<forall>a. a \<noteq> arr \<and> blk h a \<noteq> None \<longrightarrow> blk h' a = blk h a)"
proof (induction "ac - i" arbitrary: i h ps)
  case 0
  then show ?case
    by (subst duplicate_argv_loop.simps) simp
next
  case (Suc k)
  then have k: "k = ac - Suc i" and i: "i < ac" "i < length av" "i < length ps"
    using assms by auto
  let ?q = "fresh_addr h"
  have "allocs_succeed (Suc k) h" using Suc.prems(1) Suc.hyps(2) by simp
  from alloc_succeeds [OF this, of "Chars (av ! i)"] obtain h1 where
    a: "alloc (Chars (av ! i)) h = (Some ?q, h1)"
    and b1: "blk h1 = (blk h)(?q \<mapsto> Chars (av ! i))"
    and s: "allocs_succeed k h1" by blast
  have qarr: "?q \<noteq> arr" using Suc.prems(2) blk_fresh_addr [of h] by auto
  let ?h2 = "store_ptr arr i (Some ?q) h1"
  have arr1: "blk h1 arr = Some (Ptrs ps)" using b1 qarr Suc.prems(2) by simp
  have b2: "blk ?h2 = (blk h1)(arr \<mapsto> Ptrs (ps[i := Some ?q]))"
    using arr1 i by (simp add: blk_store_ptr)
  have s2: "allocs_succeed (ac - Suc i) ?h2"
    using s k by (simp add: allocs_succeed_def)
  have arr2: "blk ?h2 arr = Some (Ptrs (ps[i := Some ?q]))" using b2 by simp
  have len2: "length (ps[i := Some ?q]) = ac" using Suc.prems(3) by simp
  from Suc.hyps(1) [OF k s2 arr2 len2] obtain h' ps' where
    r: "duplicate_argv_loop (Suc i) ac av arr ?h2 = Inr (Some arr, h')"
    and arr': "blk h' arr = Some (Ptrs ps')" and len': "length ps' = ac"
    and low: "\<forall>j<Suc i. ps' ! j = ps[i := Some ?q] ! j"
    and high: "\<forall>j. Suc i \<le> j \<and> j < ac \<longrightarrow>
          (\<exists>q. ps' ! j = Some q \<and> q \<noteq> arr \<and> blk ?h2 q = None \<and>
               blk h' q = Some (Chars (av ! j)))"
    and frame: "\<forall>a. a \<noteq> arr \<and> blk ?h2 a \<noteq> None \<longrightarrow> blk h' a = blk ?h2 a"
    by blast
  have run: "duplicate_argv_loop i ac av arr h = Inr (Some arr, h')"
    using r a i by (subst duplicate_argv_loop.simps) (simp add: mosh_strdup_def)
  have low': "\<forall>j<i. ps' ! j = ps ! j" using low by auto
  have at_i: "ps' ! i = Some ?q" using low i by auto
  have q': "blk h' ?q = Some (Chars (av ! i))"
    using frame qarr b2 b1 by simp
  have high': "\<forall>j. i \<le> j \<and> j < ac \<longrightarrow>
          (\<exists>q. ps' ! j = Some q \<and> q \<noteq> arr \<and> blk h q = None \<and>
               blk h' q = Some (Chars (av ! j)))"
  proof (intro allI impI)
    fix j assume j: "i \<le> j \<and> j < ac"
    show "\<exists>q. ps' ! j = Some q \<and> q \<noteq> arr \<and> blk h q = None \<and>
               blk h' q = Some (Chars (av ! j))"
    proof (cases "j = i")
      case True
      then show ?thesis using at_i qarr q' by simp
    next
      case False
      then have "Suc i \<le> j \<and> j < ac" using j by simp
      with high obtain q where q: "ps' ! j = Some q" "q \<noteq> arr" "blk ?h2 q = None"
        "blk h' q = Some (Chars (av ! j))" by blast
      from q(3) have "blk h q = None" using b2 b1 by (simp split: if_splits)
      with q show ?thesis by simp
    qed
  qed
  have frame': "\<forall>a. a \<noteq> arr \<and> blk h a \<noteq> None \<longrightarrow> blk h' a = blk h a"
  proof (intro allI impI)
    fix a assume a: "a \<noteq> arr \<and> blk h a \<noteq> None"
    then have "a \<noteq> ?q" by auto
    with a have "blk ?h2 a = blk h a" using b2 b1 by simp
    with a frame show "blk h' a = blk h a" by simp
  qed
  from run arr' len' low' high' frame' show ?case by blast
qed

lemma th_ctrl_util_duplicate_argv_success:
  assumes "ac \<le> length av" and "allocs_succeed (Suc ac) h"
  shows "\<exists>arr h'. th_ctrl_util_duplicate_argv ac av h = Inr (Some arr, h') \<and>
           blk h arr = None \<and>
           argv_strings h' (Some arr) ac = map Some (take ac av) \<and>
           (\<forall>a. blk h a \<noteq> None \<longrightarrow> blk h' a = blk h a)"
proof -
  let ?arr = "fresh_addr h"
  from alloc_succeeds [OF assms(2), of "Ptrs (replicate ac None)"] obtain h1 where
    a: "alloc (Ptrs (replicate ac None)) h = (Some ?arr, h1)"
    and b1: "blk h1 = (blk h)(?arr \<mapsto> Ptrs (replicate ac None))"
    and s: "allocs_succeed ac h1" by blast
  have "allocs_succeed (ac - 0) h1" using s by simp
  moreover have "blk h1 ?arr = Some (Ptrs (replicate ac None))" using b1 by simp
  moreover have "length (replicate ac (None :: ptr)) = ac" by simp
  ultimately obtain h' ps' where
    r: "duplicate_argv_loop 0 ac av ?arr h1 = Inr (Some ?arr, h')"
    and arr': "blk h' ?arr = Some (Ptrs ps')" and len': "length ps' = ac"
    and high: "\<forall>j. 0 \<le> j \<and> j < ac \<longrightarrow>
          (\<exists>q. ps' ! j = Some q \<and> q \<noteq> ?arr \<and> blk h1 q = None \<and>
               blk h' q = Some (Chars (av ! j)))"
    and frame: "\<forall>a. a \<noteq> ?arr \<and> blk h1 a \<noteq> None \<longrightarrow> blk h' a = blk h1 a"
    using duplicate_argv_loop_success [OF assms(1), of 0 h1 ?arr "replicate ac None"] by blast
  have run: "th_ctrl_util_duplicate_argv ac av h = Inr (Some ?arr, h')"
    using a r by (simp add: th_ctrl_util_duplicate_argv_def malloc_ptrs_def)
  have strs: "argv_strings h' (Some ?arr) ac = map Some (take ac av)"
  proof (rule nth_equalityI)
    show "length (argv_strings h' (Some ?arr) ac) = length (map Some (take ac av))"
      using assms(1) by (simp add: argv_strings_def)
  next
    fix j assume "j < length (argv_strings h' (Some ?arr) ac)"
    then have j: "j < ac" by (simp add: argv_strings_def)
    with high obtain q where q: "ps' ! j = Some q" "blk h' q = Some (Chars (av ! j))" by auto
    show "argv_strings h' (Some ?arr) ac ! j = map Some (take ac av) ! j"
      using j q arr' len' assms(1)
      by (simp add: argv_strings_def load_ptr_def load_str_def)
  qed
  have frame': "\<forall>a. blk h a \<noteq> None \<longrightarrow> blk h' a = blk h a"
  proof (intro allI impI)
    fix a assume a: "blk h a \<noteq> None"
    then have "a \<noteq> ?arr" by auto
    with a frame b1 show "blk h' a = blk h a" by simp
  qed
  from run strs frame' show ?thesis by auto
qed

lemma th_ctrl_data_start_argv_fail:
  assumes "1 < ac" "ac \<le> length av" "\<not> allocs_succeed ac h"
  shows "\<exists>h'. th_ctrl_data_start_argv d sh ac av bg h =
           Inr (d\<lparr>argc := ac - 1, argv := None\<rparr>, h',
                [Shell_error ''Cannot start a thread: no memory for duplicated cmd args'' []])"
proof -
  let ?h1 = "if argv d \<noteq> None then th_ctrl_util_duplicate_argv_free (argc d) (argv d) h else h"
  have len: "ac - 1 \<le> length (drop 1 av)" using assms by simp
  have "outcomes ?h1 = outcomes h" by simp
  then have "\<not> allocs_succeed (Suc (ac - 1)) ?h1"
    using assms by (simp add: allocs_succeed_def)
  with th_ctrl_util_duplicate_argv_result [OF len, of ?h1] obtain h' where
    "th_ctrl_util_duplicate_argv (ac - 1) (drop 1 av) ?h1 = Inr (None, h')" by auto
  then show ?thesis using assms(1)
    by (simp add: th_ctrl_data_start_argv_def Let_def)
qed

lemma th_ctrl_data_start_argv_success:
  assumes "1 < ac" "ac \<le> length av" "allocs_succeed ac h" "th_nbr d = 1 \<or> th_nbr d = 2"
  shows "\<exists>a h'. th_ctrl_data_start_argv d sh ac av bg h =
           Inr (d\<lparr>argc := ac - 1, argv := Some a, background := bg, shell := Some sh,
                  cmd_len := cmd_buff_len sh mod 65536,
                  work := k_work_submit_to_queue (th_nbr d) (work d)\<rparr>, h', []) \<and>
           argv_strings h' (Some a) (ac - 1) = map Some (take (ac - 1) (drop 1 av))"
proof -
  let ?h1 = "if argv d \<noteq> None then th_ctrl_util_duplicate_argv_free (argc d) (argv d) h else h"
  have len: "ac - 1 \<le> length (drop 1 av)" using assms by simp
  have "outcomes ?h1 = outcomes h" by simp
  then have "allocs_succeed (Suc (ac - 1)) ?h1"
    using assms by (simp add: allocs_succeed_def)
  from th_ctrl_util_duplicate_argv_success [OF len this] obtain a h' where
    r: "th_ctrl_util_duplicate_argv (ac - 1) (drop 1 av) ?h1 = Inr (Some a, h')"
    and s: "argv_strings h' (Some a) (ac - 1) = map Some (take (ac - 1) (drop 1 av))" by blast
  from assms(4) show ?thesis
  proof
    assume "th_nbr d = 1"
    with r s assms(1) show ?thesis
      by (auto simp: th_ctrl_data_start_argv_def Let_def)
  next
    assume "th_nbr d = 2"
    with r s assms(1) show ?thesis
      by (auto simp: th_ctrl_data_start_argv_def Let_def)
  qed
qed

lemma th_ctrl_data_start_fail:
  assumes idle: "\<not> k_work_is_pending (work d)"
    and ac: "1 < ac" "ac \<le> length av"
    and fail: "\<not> allocs_succeed (allocs_needed d ac bg) h"
  shows "\<exists>d' h' out. th_ctrl_data_start d sh ac av bg h = Inr (d', h', out) \<and>
     \<not> k_work_is_pending (work d') \<and>
     (out = [Shell_error ''Cannot start a thread: no memory to store a response'' []] \<and>
        d' = d \<and> live h' = live h \<or>
      out = [Shell_error ''Cannot start a thread: no memory for duplicated cmd args'' []] \<and>
        d' = d\<lparr>argc := ac - 1, argv := None,
                results_str := (if bg then (if results_str d = None then Some (fresh_addr h)
                                           else results_str d)
                                else None)\<rparr>)"
proof (cases "bg \<and> results_str d = None")
  case True
  then have f: "\<not> allocs_succeed (Suc ac) h" using fail by (simp add: allocs_needed_def)
  have dd: "d\<lparr>results_str := None\<rparr> = d" using True by simp
  from alloc_cases [of "Chars []" h] show ?thesis
  proof (elim disjE exE conjE)
    fix h1 assume a: "alloc (Chars []) h = (None, h1)" and l: "live h1 = live h"
    show ?thesis using True idle a l dd
      by (simp add: th_ctrl_data_start_def calloc_chars_def)
  next
    fix h1 assume a: "alloc (Chars []) h = (Some (fresh_addr h), h1)"
      and o: "outcomes h1 = drop 1 (outcomes h)" and s1: "allocs_succeed 1 h"
    have "allocs_succeed ac h1 = allocs_succeed ac (h\<lparr>outcomes := drop 1 (outcomes h)\<rparr>)"
      using o by (simp add: allocs_succeed_def)
    then have "\<not> allocs_succeed ac h1" using f s1 by (simp add: allocs_succeed_Suc [of ac])
    from th_ctrl_data_start_argv_fail [OF ac this,
        of "d\<lparr>results_str := Some (fresh_addr h)\<rparr>" sh bg]
    show ?thesis using True idle a
      by (auto simp: th_ctrl_data_start_def calloc_chars_def)
  qed
next
  case False
  then have f: "\<not> allocs_succeed ac h" using fail by (auto simp: allocs_needed_def)
  show ?thesis
  proof (cases bg)
    case True
    with False have r: "results_str d \<noteq> None" by simp
    have "\<not> allocs_succeed ac (memset_zero (results_str d) h)"
      using f by (simp add: allocs_succeed_def memset_zero_def split: option.splits)
    from th_ctrl_data_start_argv_fail [OF ac this, of d sh bg]
    show ?thesis using True r idle
      by (auto simp: th_ctrl_data_start_def)
  next
    case bg: False
    show ?thesis
    proof (cases "results_str d = None")
      case True
      from th_ctrl_data_start_argv_fail [OF ac f, of d sh bg]
      show ?thesis using True bg idle
        by (auto simp: th_ctrl_data_start_def)
    next
      case False
      have "\<not> allocs_succeed ac (heap_free (results_str d) h)"
        using f by (simp add: allocs_succeed_def)
      from th_ctrl_data_start_argv_fail [OF ac this, of "d\<lparr>results_str := None\<rparr>" sh bg]
      show ?thesis using False bg idle
        by (auto simp: th_ctrl_data_start_def)
    qed
  qed
qed

lemma th_ctrl_data_start_success:
  assumes idle: "\<not> k_work_is_pending (work d)"
    and ac: "1 < ac" "ac \<le> length av"
    and ok: "allocs_succeed (allocs_needed d ac bg) h"
    and nbr: "th_nbr d = 1 \<or> th_nbr d = 2"
  shows "\<exists>d' h'. th_ctrl_data_start d sh ac av bg h = Inr (d', h', []) \<and>
     work d' = k_work_submit_to_queue (th_nbr d) (work d) \<and>
     argc d' = ac - 1 \<and> argv d' \<noteq> None \<and>
     argv_strings h' (argv d') (argc d') = map Some (take (ac - 1) (drop 1 av)) \<and>
     background d' = bg \<and> shell d' = Some sh \<and> cmd_len d' = cmd_buff_len sh mod 65536 \<and>
     th_nbr d' = th_nbr d \<and> kill_signal d' = kill_signal d \<and>
     (results_str d' \<noteq> None) = bg"
proof (cases "bg \<and> results_str d = None")
  case True
  then have f: "allocs_succeed (Suc ac) h" using ok by (simp add: allocs_needed_def)
  from alloc_succeeds [OF f, of "Chars []"] obtain h1 where
    a: "alloc (Chars []) h = (Some (fresh_addr h), h1)" and s: "allocs_succeed ac h1" by blast
  have n: "th_nbr (d\<lparr>results_str := Some (fresh_addr h)\<rparr>) = 1 \<or>
           th_nbr (d\<lparr>results_str := Some (fresh_addr h)\<rparr>) = 2" using nbr by simp
  from th_ctrl_data_start_argv_success [OF ac s n, of sh bg]
  show ?thesis using True idle a
    by (auto simp: th_ctrl_data_start_def calloc_chars_def)
next
  case False
  then have f: "allocs_succeed ac h" using ok by (auto simp: allocs_needed_def)
  show ?thesis
  proof (cases bg)
    case True
    with False have r: "results_str d \<noteq> None" by simp
    have "allocs_succeed ac (memset_zero (results_str d) h)"
      using f by (simp add: allocs_succeed_def memset_zero_def split: option.splits)
    from th_ctrl_data_start_argv_success [OF ac this nbr, of sh bg]
    show ?thesis using True r idle
      by (auto simp: th_ctrl_data_start_def)
  next
    case bg: False
    show ?thesis
    proof (cases "results_str d = None")
      case True
      from th_ctrl_data_start_argv_success [OF ac f nbr, of sh bg]
      show ?thesis using True bg idle
        by (auto simp: th_ctrl_data_start_def)
    next
      case False
      have s: "allocs_succeed ac (heap_free (results_str d) h)"
        using f by (simp add: allocs_succeed_def)
      have n: "th_nbr (d\<lparr>results_str := None\<rparr>) = 1 \<or> th_nbr (d\<lparr>results_str := None\<rparr>) = 2"
        using nbr by simp
      from th_ctrl_data_start_argv_success [OF ac s n, of sh bg]
      show ?thesis using False bg idle
        by (auto simp: th_ctrl_data_start_def)
    qed
  qed
qed

lemma command_line_snoc: "command_line (xs @ [a]) = command_line xs @ a @ '' ''"
  by (simp add: command_line_def)

lemma command_line_take_le:
  "length (command_line (take i args)) \<le> length (command_line args)"
proof -
  have "command_line args = command_line (take i args) @ command_line (drop i args)"
    unfolding command_line_def by (metis append_take_drop_id concat_append map_append)
  then show ?thesis by simp
qed

lemma argv_strings_nth:
  assumes "argv_strings h p n = map Some args" "i < n"
  shows "(case load_ptr h p i of None \<Rightarrow> None | Some q \<Rightarrow> load_str h q) = Some (args ! i)"
proof -
  have len: "length args = n" using assms(1) [THEN arg_cong [where f = length]]
    by (simp add: argv_strings_def)
  have "argv_strings h p n ! i = map Some args ! i" using assms(1) by simp
  then show ?thesis using assms(2) len by (simp add: argv_strings_def)
qed

lemma get_command_str_loop_joins:
  assumes strs: "argv_strings h p n = map Some args"
    and fit1: "length (command_line args) \<le> out_buf_len + 1"
    and fit2: "length (command_line args) + 1 \<le> cap"
  shows "i \<le> n \<Longrightarrow>
    get_command_str_loop h n p out_buf_len (Some cap) i
       (length (command_line (take i args))) (command_line (take i args)) =
    Inr (command_line args)"
proof (induction "n - i" arbitrary: i)
  case 0
  have len: "length args = n" using strs [THEN arg_cong [where f = length]]
    by (simp add: argv_strings_def)
  from 0 have "i = n" by simp
  then show ?case using len
    by (subst get_command_str_loop.simps) simp
next
  case (Suc k)
  have len: "length args = n" using strs [THEN arg_cong [where f = length]]
    by (simp add: argv_strings_def)
  from Suc have i: "i < n" and k: "k = n - Suc i" by auto
  have rd: "(case load_ptr h p i of None \<Rightarrow> None | Some q \<Rightarrow> load_str h q) = Some (args ! i)"
    by (rule argv_strings_nth [OF strs i])
  have tk: "take (Suc i) args = take i args @ [args ! i]"
    using i len by (simp add: take_Suc_conv_app_nth)
  have cl: "command_line (take (Suc i) args) = command_line (take i args) @ args ! i @ '' ''"
    by (simp add: tk command_line_snoc)
  have le: "length (command_line (take (Suc i) args)) \<le> length (command_line args)"
    by (rule command_line_take_le)
  then have b1: "\<not> length (command_line (take i args)) + length (args ! i) > out_buf_len"
    and b2: "\<not> length (command_line (take i args)) + length (args ! i) + 2 > cap"
    using fit1 fit2 by (simp_all add: cl)
  have IH: "get_command_str_loop h n p out_buf_len (Some cap) (Suc i)
       (length (command_line (take (Suc i) args))) (command_line (take (Suc i) args)) =
    Inr (command_line args)"
    using Suc.hyps(1) [OF k] i by simp
  show ?case
    apply (subst get_command_str_loop.simps)
    using i rd b1 b2 IH by (simp add: cl)
qed

lemma th_ctrl_get_command_str_from_argv_joins:
  assumes "argv_strings h p n = map Some args"
    and "length (command_line args) \<le> out_buf_len + 1"
    and "length (command_line args) + 1 \<le> cap"
  shows "th_ctrl_get_command_str_from_argv h n p (Some cap) out_buf_len =
           Inr (command_line args)"
  using get_command_str_loop_joins [OF assms, of 0]
  by (simp add: th_ctrl_get_command_str_from_argv_def command_line_def)

lemma alloc_succeeds_exact:
  "allocs_succeed 1 h \<Longrightarrow>
   alloc b h = (Some (fresh_addr h),
                h\<lparr>live := (fresh_addr h, b) # live h, outcomes := drop 1 (outcomes h)\<rparr>)"
  by (cases "outcomes h") (auto simp: alloc_def allocs_succeed_def)

lemma fresh_addr_not_live: "fresh_addr h \<notin> fst ` set (live h)"
  using blk_fresh_addr [of h] by (simp add: blk_def map_of_eq_None_iff)

lemma heap_free_after_alloc:
  "heap_free (Some (fresh_addr h))
     (h\<lparr>live := (fresh_addr h, b) # live h, outcomes := os\<rparr>) = h\<lparr>outcomes := os\<rparr>"
  using fresh_addr_not_live [of h] by (simp add: heap_free_def)

lemma argv_strings_mono:
  assumes strs: "argv_strings h p n = map Some args"
    and ext: "\<forall>a. blk h a \<noteq> None \<longrightarrow> blk h' a = blk h a"
  shows "argv_strings h' p n = map Some args"
proof (rule nth_equalityI)
  show "length (argv_strings h' p n) = length (map Some args)"
    using strs [THEN arg_cong [where f = length]] by (simp add: argv_strings_def)
next
  fix i assume "i < length (argv_strings h' p n)"
  then have i: "i < n" by (simp add: argv_strings_def)
  have len: "length args = n" using strs [THEN arg_cong [where f = length]]
    by (simp add: argv_strings_def)
  from argv_strings_nth [OF strs i]
  have "(case load_ptr h' p i of None \<Rightarrow> None | Some q \<Rightarrow> load_str h' q) = Some (args ! i)"
    using ext
    by (auto simp: load_ptr_def load_str_def split: option.splits block.splits if_splits)
  then show "argv_strings h' p n ! i = map Some args ! i"
    using i len by (simp add: argv_strings_def)
qed

lemma th_ctrl_data_status_print_results:
  assumes res: "load_str h (results_str d) = Some res" "res \<noteq> []"
    and strs: "argv_strings h (argv d) (argc d) = map Some args"
    and fit: "length (command_line args) \<le> cmd_len d" "cmd_len d < 65535"
    and ok: "allocs_succeed 1 h"
  shows "th_ctrl_data_status_print d h =
     ([Shell_print ''thread #%d status:'' [Int_arg (int (th_nbr d))],
       Shell_print ''  Results available'' [],
       (if k_work_is_pending (work d) then Shell_print ''  thread is running'' []
        else Shell_print ''  thread is not running'' []),
       Shell_print ''  command: %s'' [Str_arg (command_line args)]],
      Inr (h\<lparr>outcomes := drop 1 (outcomes h)\<rparr>))"
proof -
  let ?h1 = "h\<lparr>live := (fresh_addr h, Chars []) # live h, outcomes := drop 1 (outcomes h)\<rparr>"
  have r: "results_str d \<noteq> None" using res(1) by (auto simp: load_str_def split: option.splits)
  have a: "calloc_chars (cmd_len d + 1) h = (Some (fresh_addr h), ?h1)"
    using alloc_succeeds_exact [OF ok] by (simp add: calloc_chars_def)
  have "\<forall>a. blk h a \<noteq> None \<longrightarrow> blk ?h1 a = blk h a"
    using blk_fresh_addr [of h] by (auto simp: blk_def)
  from argv_strings_mono [OF strs this]
  have strs1: "argv_strings ?h1 (argv d) (argc d) = map Some args" .
  have m: "(cmd_len d + 1) mod 65536 = cmd_len d + 1" using fit(2) by simp
  have c: "th_ctrl_get_command_str_from_argv ?h1 (argc d) (argv d) (Some (cmd_len d + 1))
             ((cmd_len d + 1) mod 65536) = Inr (command_line args)"
    unfolding m using fit(1)
    by (intro th_ctrl_get_command_str_from_argv_joins [OF strs1]) simp_all
  show ?thesis
    using r res a c
    by (simp add: th_ctrl_data_status_print_def Let_def heap_free_after_alloc)
qed



section \<open>What a failed start leaves alone\<close>

lemma blk_store_ptr_other: "x \<noteq> a \<Longrightarrow> blk (store_ptr a i q h) x = blk h x"
  by (simp add: store_ptr_def blk_heap_store split: option.splits block.splits)

lemma blk_heap_free_other: "p \<noteq> Some x \<Longrightarrow> blk (heap_free p h) x = blk h x"
  by (cases p) simp_all

lemma duplicate_argv_free_loop_frame:
  assumes "x \<noteq> a" and "Some x \<notin> set (array_entries b0)"
  shows "blk h a = None \<or> blk h a = b0 \<Longrightarrow>
         blk (duplicate_argv_free_loop i ac (Some a) h) x = blk h x \<and>
         (blk (duplicate_argv_free_loop i ac (Some a) h) a = None \<or>
          blk (duplicate_argv_free_loop i ac (Some a) h) a = b0)"
proof (induction "ac - i" arbitrary: i h)
  case 0
  then show ?case by (subst (1 2 3) duplicate_argv_free_loop.simps) simp
next
  case (Suc k)
  then have k: "k = ac - Suc i" and i: "i < ac" by auto
  let ?q = "case load_ptr h (Some a) i of None \<Rightarrow> None | Some q \<Rightarrow> q"
  have q: "?q \<noteq> Some x"
    using Suc.prems assms(2)
    by (auto simp: load_ptr_def array_entries_def split: option.splits block.splits if_splits
        dest: nth_mem)
  have inv: "blk (heap_free ?q h) a = None \<or> blk (heap_free ?q h) a = b0"
    using Suc.prems by (cases ?q) auto
  have same: "blk (heap_free ?q h) x = blk h x" using q by (rule blk_heap_free_other)
  from Suc.hyps(1) [OF k inv] same show ?case
    using i by (subst (1 2 3) duplicate_argv_free_loop.simps) simp
qed

lemma th_ctrl_util_duplicate_argv_free_frame:
  assumes "p \<noteq> Some x"
    and "Some x \<notin> set (case p of None \<Rightarrow> [] | Some a \<Rightarrow> array_entries (blk h a))"
  shows "blk (th_ctrl_util_duplicate_argv_free ac p h) x = blk h x"
proof (cases p)
  case None
  have "duplicate_argv_free_loop i ac None h = h" for i
  proof (induction "ac - i" arbitrary: i)
    case 0
    then show ?case by (subst duplicate_argv_free_loop.simps) simp
  next
    case (Suc k)
    then have "k = ac - Suc i" "i < ac" by auto
    with Suc.hyps(1) [of "Suc i"] show ?case
      by (subst duplicate_argv_free_loop.simps) (simp add: load_ptr_def)
  qed
  with None show ?thesis by (simp add: th_ctrl_util_duplicate_argv_free_def)
next
  case (Some a)
  then have xa: "x \<noteq> a" and e: "Some x \<notin> set (array_entries (blk h a))"
    using assms by auto
  from duplicate_argv_free_loop_frame [OF xa e, of h 1 ac]
  have "blk (duplicate_argv_free_loop 1 ac (Some a) h) x = blk h x" by simp
  with Some xa show ?thesis
    by (simp add: th_ctrl_util_duplicate_argv_free_def)
qed

lemma duplicate_argv_loop_frame:
  "duplicate_argv_loop i ac av arr h = Inr (p, h') \<Longrightarrow> x \<noteq> arr \<Longrightarrow> blk h x \<noteq> None \<Longrightarrow>
   blk h' x = blk h x"
proof (induction "ac - i" arbitrary: i h)
  case 0
  then show ?case by (subst (asm) duplicate_argv_loop.simps) simp
next
  case (Suc k)
  then have k: "k = ac - Suc i" and i: "i < ac" by auto
  have len: "i < length av"
    using Suc.prems(1) i by (subst (asm) duplicate_argv_loop.simps) (simp split: if_splits)
  from alloc_cases [of "Chars (av ! i)" h] show ?case
  proof (elim disjE exE conjE)
    fix h1
    assume a: "alloc (Chars (av ! i)) h = (None, h1)" and l: "live h1 = live h"
    have b: "blk h1 = blk h" using l by (simp add: blk_def fun_eq_iff)
    have "h' = heap_free (Some arr) (store_ptr arr i None h1)"
      using Suc.prems(1) a i len
      by (subst (asm) duplicate_argv_loop.simps) (simp add: mosh_strdup_def)
    then show ?thesis using Suc.prems(2) b by (simp add: blk_store_ptr_other)
  next
    fix h1
    assume a: "alloc (Chars (av ! i)) h = (Some (fresh_addr h), h1)"
      and b: "blk h1 = (blk h)(fresh_addr h \<mapsto> Chars (av ! i))"
    let ?h2 = "store_ptr arr i (Some (fresh_addr h)) h1"
    have r: "duplicate_argv_loop (Suc i) ac av arr ?h2 = Inr (p, h')"
      using Suc.prems(1) a i len
      by (subst (asm) duplicate_argv_loop.simps) (simp add: mosh_strdup_def)
    have xf: "x \<noteq> fresh_addr h" using Suc.prems(3) by auto
    have same: "blk ?h2 x = blk h x"
      using Suc.prems(2) xf b by (simp add: blk_store_ptr_other)
    from Suc.hyps(1) [OF k r Suc.prems(2)] same Suc.prems(3) show ?thesis by simp
  qed
qed

lemma th_ctrl_util_duplicate_argv_frame:
  assumes "th_ctrl_util_duplicate_argv ac av h = Inr (p, h')" and "blk h x \<noteq> None"
  shows "blk h' x = blk h x"
proof -
  from alloc_cases [of "Ptrs (replicate ac None)" h] show ?thesis
  proof (elim disjE exE conjE)
    fix h1
    assume a: "alloc (Ptrs (replicate ac None)) h = (None, h1)" and l: "live h1 = live h"
    have "h' = h1" using assms(1) a
      by (simp add: th_ctrl_util_duplicate_argv_def malloc_ptrs_def)
    then show ?thesis using l by (simp add: blk_def)
  next
    fix h1
    assume a: "alloc (Ptrs (replicate ac None)) h = (Some (fresh_addr h), h1)"
      and b: "blk h1 = (blk h)(fresh_addr h \<mapsto> Ptrs (replicate ac None))"
    have r: "duplicate_argv_loop 0 ac av (fresh_addr h) h1 = Inr (p, h')"
      using assms(1) a by (simp add: th_ctrl_util_duplicate_argv_def malloc_ptrs_def)
    have xf: "x \<noteq> fresh_addr h" using assms(2) by auto
    then have "blk h1 x = blk h x" using b by simp
    with duplicate_argv_loop_frame [OF r xf] assms(2) show ?thesis by simp
  qed
qed

lemma alloc_refused_exact:
  "\<not> allocs_succeed 1 h \<Longrightarrow> alloc b h = (None, h\<lparr>outcomes := drop 1 (outcomes h)\<rparr>)"
  by (cases "outcomes h") (auto simp: alloc_def allocs_succeed_def)

lemma th_ctrl_data_start_argv_fail_frame:
  assumes "1 < ac" "ac \<le> length av" "\<not> allocs_succeed ac h"
  shows "\<exists>h'. th_ctrl_data_start_argv d sh ac av bg h =
           Inr (d\<lparr>argc := ac - 1, argv := None\<rparr>, h',
                [Shell_error ''Cannot start a thread: no memory for duplicated cmd args'' []]) \<and>
           (\<forall>x. blk h x \<noteq> None \<and> argv d \<noteq> Some x \<and>
                Some x \<notin> set (case argv d of None \<Rightarrow> [] | Some a \<Rightarrow> array_entries (blk h a))
                \<longrightarrow> blk h' x = blk h x)"
proof -
  let ?h1 = "if argv d \<noteq> None then th_ctrl_util_duplicate_argv_free (argc d) (argv d) h else h"
  have len: "ac - 1 \<le> length (drop 1 av)" using assms by simp
  have "outcomes ?h1 = outcomes h" by simp
  then have "\<not> allocs_succeed (Suc (ac - 1)) ?h1"
    using assms by (simp add: allocs_succeed_def)
  with th_ctrl_util_duplicate_argv_result [OF len, of ?h1] obtain h' where
    r: "th_ctrl_util_duplicate_argv (ac - 1) (drop 1 av) ?h1 = Inr (None, h')" by auto
  have run: "th_ctrl_data_start_argv d sh ac av bg h =
           Inr (d\<lparr>argc := ac - 1, argv := None\<rparr>, h',
                [Shell_error ''Cannot start a thread: no memory for duplicated cmd args'' []])"
    using r assms(1) by (simp add: th_ctrl_data_start_argv_def Let_def)
  have frame: "blk h' x = blk h x"
    if x: "blk h x \<noteq> None" "argv d \<noteq> Some x"
      "Some x \<notin> set (case argv d of None \<Rightarrow> [] | Some a \<Rightarrow> array_entries (blk h a))" for x
  proof -
    have 1: "blk ?h1 x = blk h x"
      using th_ctrl_util_duplicate_argv_free_frame [OF x(2) x(3)] by simp
    with x(1) have "blk ?h1 x \<noteq> None" by simp
    from th_ctrl_util_duplicate_argv_frame [OF r this] 1 show ?thesis by simp
  qed
  from run frame show ?thesis by blast
qed

lemma th_ctrl_data_start_buffer_refused:
  assumes "\<not> k_work_is_pending (work d)" "bg" "results_str d = None" "\<not> allocs_succeed 1 h"
  shows "th_ctrl_data_start d sh ac av bg h =
     Inr (d, h\<lparr>outcomes := drop 1 (outcomes h)\<rparr>,
          [Shell_error ''Cannot start a thread: no memory to store a response'' []])"
proof -
  have dd: "d\<lparr>results_str := None\<rparr> = d" using assms(3) by simp
  show ?thesis
    using assms alloc_refused_exact [OF assms(4), of "Chars []"] dd
    by (simp add: th_ctrl_data_start_def calloc_chars_def)
qed

lemma th_ctrl_data_start_duplication_fails:
  assumes idle: "\<not> k_work_is_pending (work d)"
    and ac: "1 < ac" "ac \<le> length av"
    and buf: "bg \<and> results_str d = None \<longrightarrow> allocs_succeed 1 h"
    and fail: "\<not> allocs_succeed (allocs_needed d ac bg) h"
  shows "\<exists>h'. th_ctrl_data_start d sh ac av bg h =
       Inr (d\<lparr>argc := ac - 1, argv := None,
              results_str := (if bg then (if results_str d = None then Some (fresh_addr h)
                                         else results_str d)
                              else None)\<rparr>, h',
            [Shell_error ''Cannot start a thread: no memory for duplicated cmd args'' []]) \<and>
       (\<forall>x. blk h x \<noteq> None \<and> Some x \<notin> set (slot_pointers d h) \<longrightarrow> blk h' x = blk h x) \<and>
       (bg \<and> slot_blocks_ok d h \<longrightarrow>
          load_str h' (if results_str d = None then Some (fresh_addr h) else results_str d) =
            Some [])"
proof (cases "bg \<and> results_str d = None")
  case True
  let ?r = "fresh_addr h"
  let ?h1 = "h\<lparr>live := (?r, Chars []) # live h, outcomes := drop 1 (outcomes h)\<rparr>"
  let ?d1 = "d\<lparr>results_str := Some ?r\<rparr>"
  from True buf have s1: "allocs_succeed 1 h" by simp
  from True fail have f: "\<not> allocs_succeed (Suc ac) h" by (simp add: allocs_needed_def)
  have a: "calloc_chars TH_RESPONSE_BUFFER_SIZE h = (Some ?r, ?h1)"
    using alloc_succeeds_exact [OF s1] by (simp add: calloc_chars_def)
  have b1: "blk ?h1 = (blk h)(?r \<mapsto> Chars [])" by (simp add: blk_def fun_eq_iff)
  have "allocs_succeed ac ?h1 = allocs_succeed ac (h\<lparr>outcomes := drop 1 (outcomes h)\<rparr>)"
    by (simp add: allocs_succeed_def)
  then have f1: "\<not> allocs_succeed ac ?h1" using f s1 by (simp add: allocs_succeed_Suc [of ac])
  from th_ctrl_data_start_argv_fail_frame [OF ac f1, of ?d1 sh bg] obtain h' where
    run1: "th_ctrl_data_start_argv ?d1 sh ac av bg ?h1 =
           Inr (?d1\<lparr>argc := ac - 1, argv := None\<rparr>, h',
                [Shell_error ''Cannot start a thread: no memory for duplicated cmd args'' []])"
    and fr1: "\<And>x. blk ?h1 x \<noteq> None \<Longrightarrow> argv d \<noteq> Some x \<Longrightarrow>
                Some x \<notin> set (case argv d of None \<Rightarrow> [] | Some a \<Rightarrow> array_entries (blk ?h1 a))
                \<Longrightarrow> blk h' x = blk ?h1 x"
    by auto
  have ent: "set (case argv d of None \<Rightarrow> [] | Some a \<Rightarrow> array_entries (blk ?h1 a)) \<subseteq>
             set (case argv d of None \<Rightarrow> [] | Some a \<Rightarrow> array_entries (blk h a))"
    unfolding b1 by (auto simp: array_entries_def split: option.splits)
  have run: "th_ctrl_data_start d sh ac av bg h =
       Inr (d\<lparr>argc := ac - 1, argv := None, results_str := Some ?r\<rparr>, h',
            [Shell_error ''Cannot start a thread: no memory for duplicated cmd args'' []])"
    using True idle a run1 by (simp add: th_ctrl_data_start_def)
  have frame: "blk h' x = blk h x"
    if x: "blk h x \<noteq> None" "Some x \<notin> set (slot_pointers d h)" for x
  proof -
    have xr: "x \<noteq> ?r" using x(1) by auto
    then have same: "blk ?h1 x = blk h x" unfolding b1 by simp
    have "argv d \<noteq> Some x" using x(2) by (auto simp: slot_pointers_def)
    moreover have "Some x \<notin> set (case argv d of None \<Rightarrow> [] | Some a \<Rightarrow> array_entries (blk ?h1 a))"
    proof -
      have "Some x \<notin> set (case argv d of None \<Rightarrow> [] | Some a \<Rightarrow> array_entries (blk h a))"
        using x(2) by (simp add: slot_pointers_def)
      with ent show ?thesis by blast
    qed
    ultimately show ?thesis using fr1 [of x] same x(1) by simp
  qed
  have kept: "load_str h' (Some ?r) = Some []" if ok: "slot_blocks_ok d h"
  proof -
    have 1: "blk ?h1 ?r \<noteq> None" unfolding b1 by simp
    have 2: "argv d \<noteq> Some ?r"
      using ok blk_fresh_addr [of h]
      by (auto simp: slot_blocks_ok_def split: option.splits block.splits)
    have 3: "Some ?r \<notin> set (case argv d of None \<Rightarrow> [] | Some a \<Rightarrow> array_entries (blk h a))"
      using ok blk_fresh_addr [of h]
      by (auto simp: slot_blocks_ok_def array_entries_def list_all_iff
          split: option.splits block.splits)
    with ent have e3: "Some ?r \<notin> set (case argv d of None \<Rightarrow> [] | Some a \<Rightarrow> array_entries (blk ?h1 a))"
      by blast
    from fr1 [OF 1 2 e3] have "blk h' ?r = Some (Chars [])" unfolding b1 by simp
    then show ?thesis by (simp add: load_str_def)
  qed
  from run frame kept True show ?thesis by auto
next
  case False
  then have f: "\<not> allocs_succeed ac h" using fail by (auto simp: allocs_needed_def)
  show ?thesis
  proof (cases bg)
    case True
    with False obtain r where r: "results_str d = Some r" by auto
    let ?h1 = "memset_zero (results_str d) h"
    have b1: "blk ?h1 = (if blk h r = None then blk h else (blk h)(r \<mapsto> Chars []))"
      using r by (simp add: memset_zero_def blk_heap_store)
    have f1: "\<not> allocs_succeed ac ?h1"
      using f r by (simp add: allocs_succeed_def memset_zero_def)
    from th_ctrl_data_start_argv_fail_frame [OF ac f1, of d sh bg] obtain h' where
      run1: "th_ctrl_data_start_argv d sh ac av bg ?h1 =
           Inr (d\<lparr>argc := ac - 1, argv := None\<rparr>, h',
                [Shell_error ''Cannot start a thread: no memory for duplicated cmd args'' []])"
      and fr1: "\<And>x. blk ?h1 x \<noteq> None \<Longrightarrow> argv d \<noteq> Some x \<Longrightarrow>
                Some x \<notin> set (case argv d of None \<Rightarrow> [] | Some a \<Rightarrow> array_entries (blk ?h1 a))
                \<Longrightarrow> blk h' x = blk ?h1 x"
      by auto
    have ent: "set (case argv d of None \<Rightarrow> [] | Some a \<Rightarrow> array_entries (blk ?h1 a)) \<subseteq>
             set (case argv d of None \<Rightarrow> [] | Some a \<Rightarrow> array_entries (blk h a))"
      unfolding b1 by (auto simp: array_entries_def split: option.splits)
    have dd: "d\<lparr>argc := ac - 1, argv := None, results_str := results_str d\<rparr> =
              d\<lparr>argc := ac - 1, argv := None\<rparr>" by simp
    have run: "th_ctrl_data_start d sh ac av bg h =
       Inr (d\<lparr>argc := ac - 1, argv := None, results_str := results_str d\<rparr>, h',
            [Shell_error ''Cannot start a thread: no memory for duplicated cmd args'' []])"
      unfolding dd using True r idle run1 by (simp add: th_ctrl_data_start_def)
    have frame: "blk h' x = blk h x"
      if x: "blk h x \<noteq> None" "Some x \<notin> set (slot_pointers d h)" for x
    proof -
      have xr: "x \<noteq> r" using x(2) r by (auto simp: slot_pointers_def)
      then have same: "blk ?h1 x = blk h x" unfolding b1 by simp
      have "argv d \<noteq> Some x" using x(2) by (auto simp: slot_pointers_def)
      moreover have "Some x \<notin> set (case argv d of None \<Rightarrow> [] | Some a \<Rightarrow> array_entries (blk ?h1 a))"
    proof -
      have "Some x \<notin> set (case argv d of None \<Rightarrow> [] | Some a \<Rightarrow> array_entries (blk h a))"
        using x(2) by (simp add: slot_pointers_def)
      with ent show ?thesis by blast
    qed
      ultimately show ?thesis using fr1 [of x] same x(1) by simp
    qed
    have kept: "load_str h' (Some r) = Some []" if ok: "slot_blocks_ok d h"
    proof -
      from ok r obtain s where s: "blk h r = Some (Chars s)"
        by (auto simp: slot_blocks_ok_def split: option.splits block.splits)
      then have br: "blk ?h1 r = Some (Chars [])" unfolding b1 by simp
      have 2: "argv d \<noteq> Some r"
        using ok s by (auto simp: slot_blocks_ok_def split: option.splits block.splits)
      have 3: "Some r \<notin> set (case argv d of None \<Rightarrow> [] | Some a \<Rightarrow> array_entries (blk h a))"
        using ok r
        by (auto simp: slot_blocks_ok_def array_entries_def list_all_iff
            split: option.splits block.splits)
      with ent have e3: "Some r \<notin> set (case argv d of None \<Rightarrow> [] | Some a \<Rightarrow> array_entries (blk ?h1 a))"
        by blast
      from fr1 [OF _ 2 e3] br have "blk h' r = Some (Chars [])" by simp
      then show ?thesis by (simp add: load_str_def)
    qed
    from run frame kept True r show ?thesis by auto
  next
    case bg: False
    let ?d1 = "if results_str d \<noteq> None then d\<lparr>results_str := None\<rparr> else d"
    let ?h1 = "if results_str d \<noteq> None then heap_free (results_str d) h else h"
    have f1: "\<not> allocs_succeed ac ?h1" using f by (simp add: allocs_succeed_def)
    from th_ctrl_data_start_argv_fail_frame [OF ac f1, of ?d1 sh bg] obtain h' where
      run1: "th_ctrl_data_start_argv ?d1 sh ac av bg ?h1 =
           Inr (?d1\<lparr>argc := ac - 1, argv := None\<rparr>, h',
                [Shell_error ''Cannot start a thread: no memory for duplicated cmd args'' []])"
      and fr1: "\<And>x. blk ?h1 x \<noteq> None \<Longrightarrow> argv ?d1 \<noteq> Some x \<Longrightarrow>
                Some x \<notin> set (case argv ?d1 of None \<Rightarrow> [] | Some a \<Rightarrow> array_entries (blk ?h1 a))
                \<Longrightarrow> blk h' x = blk ?h1 x"
      by auto
    have av: "argv ?d1 = argv d" by simp
    have ent: "set (case argv d of None \<Rightarrow> [] | Some a \<Rightarrow> array_entries (blk ?h1 a)) \<subseteq>
             set (case argv d of None \<Rightarrow> [] | Some a \<Rightarrow> array_entries (blk h a))"
      by (cases "results_str d") (auto simp: array_entries_def split: option.splits)
    have dd: "?d1\<lparr>argc := ac - 1, argv := None\<rparr> =
              d\<lparr>argc := ac - 1, argv := None, results_str := None\<rparr>"
      by (cases "results_str d") simp_all
    have run: "th_ctrl_data_start d sh ac av bg h =
       Inr (d\<lparr>argc := ac - 1, argv := None, results_str := None\<rparr>, h',
            [Shell_error ''Cannot start a thread: no memory for duplicated cmd args'' []])"
      using bg idle run1 unfolding dd
      by (cases "results_str d") (simp_all add: th_ctrl_data_start_def)
    have frame: "blk h' x = blk h x"
      if x: "blk h x \<noteq> None" "Some x \<notin> set (slot_pointers d h)" for x
    proof -
      have xr: "results_str d \<noteq> Some x" using x(2) by (auto simp: slot_pointers_def)
      then have same: "blk ?h1 x = blk h x" by (simp add: blk_heap_free_other)
      have "argv ?d1 \<noteq> Some x" using x(2) by (auto simp: slot_pointers_def)
      moreover have "Some x \<notin> set (case argv ?d1 of None \<Rightarrow> [] | Some a \<Rightarrow> array_entries (blk ?h1 a))"
      proof -
        have "Some x \<notin> set (case argv d of None \<Rightarrow> [] | Some a \<Rightarrow> array_entries (blk h a))"
          using x(2) by (simp add: slot_pointers_def)
        with ent have "Some x \<notin> set (case argv d of None \<Rightarrow> []
                                         | Some a \<Rightarrow> array_entries (blk ?h1 a))" by blast
        then show ?thesis by (cases "results_str d") simp_all
      qed
      ultimately show ?thesis using fr1 [of x] same x(1) by simp
    qed
    from run frame bg show ?thesis by auto
  qed
qed

section \<open>Argument duplication and release (C2, C3)\<close>

text \<open>
  C2. Argument duplication either returns an owned list of owned copies or fails, and on
  failure every allocation it made so far, the already duplicated elements included, has
  been released. The code releases only the array: for the two arguments \<open>iperf3\<close> and
  \<open>-s\<close>, with the array and the first copy allocated and the second copy refused, the call
  returns \<^verbatim>\<open>NULL\<close> and the copy of \<open>iperf3\<close> (block 2) is still allocated.
\<close>

theorem duplicate_argv_leaks_copies:
  "th_ctrl_util_duplicate_argv 2 [''iperf3'', ''-s'']
     \<lparr>live = [], outcomes = [True, True, False]\<rparr> =
     Inr (None, \<lparr>live = [(2, Chars ''iperf3'')], outcomes = []\<rparr>)"
  by (simp add: heap_eval slot_eval ctrl_eval)

text \<open>
  C3. The release operation deallocates all \<open>n\<close> elements and the container. The loop of
  the code starts at index 1: on the vector that duplicating \<open>iperf3\<close>, \<open>-s\<close> yields, the
  array (block 1) and the second element (block 3) are released and the first element
  (block 2) is still allocated.
\<close>

theorem duplicate_argv_free_skips_first:
  "th_ctrl_util_duplicate_argv 2 [''iperf3'', ''-s''] \<lparr>live = [], outcomes = []\<rparr> =
     Inr (Some 1,
          \<lparr>live = [(3, Chars ''-s''), (2, Chars ''iperf3''), (1, Ptrs [Some 2, Some 3])],
           outcomes = []\<rparr>) \<and>
   th_ctrl_util_duplicate_argv_free 2 (Some 1)
     \<lparr>live = [(3, Chars ''-s''), (2, Chars ''iperf3''), (1, Ptrs [Some 2, Some 3])],
      outcomes = []\<rparr> =
     \<lparr>live = [(2, Chars ''iperf3'')], outcomes = []\<rparr>"
  by (simp add: heap_eval slot_eval ctrl_eval)

section \<open>Allocation failure during start (C1)\<close>

text \<open>
  C1, as stated: when an allocation fails during start, the slot is left unchanged and
  every resource acquired during the attempt has been released. This fails when the
  duplication of the arguments fails: a background start on the fresh slot 1 whose result
  buffer is allocated and whose pointer array is refused ends with the error, with
  \<open>argc = 2\<close> where it was 0, and with the result buffer (block 1) allocated and kept in
  the slot.
\<close>

theorem th_ctrl_data_start_oom_counterexample:
  "th_ctrl_data_start (zero_data\<lparr>th_nbr := 1\<rparr>) \<lparr>cmd_buff_len = 17\<rparr> 3
      [''startbg'', ''iperf3'', ''-s''] True \<lparr>live = [], outcomes = [True, False]\<rparr> =
     Inr (zero_data\<lparr>th_nbr := 1, results_str := Some 1, argc := 2\<rparr>,
          \<lparr>live = [(1, Chars [])], outcomes = []\<rparr>,
          [Shell_error ''Cannot start a thread: no memory for duplicated cmd args'' []]) \<and>
   zero_data\<lparr>th_nbr := 1, results_str := Some 1, argc := 2\<rparr> \<noteq> zero_data\<lparr>th_nbr := 1\<rparr>"
  by (simp add: heap_eval slot_eval ctrl_eval)

text \<open>
  C1, amended. On an idle slot, with \<open>1 < argc\<close> arguments:

  When the result buffer of a background start cannot be allocated, start returns with
  the error \<open>no memory to store a response\<close>; the slot is unchanged, so it stays idle, and
  the heap is unchanged but for the allocation request used up.

  When the result buffer step goes through and an allocation of the argument duplication
  fails, start returns with the error \<open>no memory for duplicated cmd args\<close> and submits
  nothing, so the slot stays idle, but the slot is not restored: \<open>argv\<close> is \<^verbatim>\<open>NULL\<close>,
  \<open>argc\<close> is the caller's \<open>argc - 1\<close>, and the result buffer field is \<^verbatim>\<open>NULL\<close> after a
  foreground start and, after a background start, the previous buffer or the one this
  attempt allocated; no other field changes. No allocated block that the slot does not
  point to is changed. After a background start of a slot whose pointers are valid, the
  result buffer is still allocated, and empty: the attempt keeps it.
\<close>

theorem th_ctrl_data_start_out_of_memory:
  assumes "\<not> k_work_is_pending (work d)" and "1 < ac" and "ac \<le> length av"
  shows
   "(bg \<and> results_str d = None \<and> \<not> allocs_succeed 1 h \<longrightarrow>
       th_ctrl_data_start d sh ac av bg h =
         Inr (d, h\<lparr>outcomes := drop 1 (outcomes h)\<rparr>,
              [Shell_error ''Cannot start a thread: no memory to store a response'' []])) \<and>
    ((bg \<and> results_str d = None \<longrightarrow> allocs_succeed 1 h) \<and>
     \<not> allocs_succeed (allocs_needed d ac bg) h \<longrightarrow>
       (\<exists>h'. th_ctrl_data_start d sh ac av bg h =
          Inr (d\<lparr>argc := ac - 1, argv := None,
                 results_str := (if bg then (if results_str d = None then Some (fresh_addr h)
                                            else results_str d)
                                 else None)\<rparr>, h',
               [Shell_error ''Cannot start a thread: no memory for duplicated cmd args'' []]) \<and>
          (\<forall>x. blk h x \<noteq> None \<and> Some x \<notin> set (slot_pointers d h) \<longrightarrow>
               blk h' x = blk h x) \<and>
          (bg \<and> slot_blocks_ok d h \<longrightarrow>
             load_str h' (if results_str d = None then Some (fresh_addr h) else results_str d) =
               Some [])))"
proof (intro conjI impI)
  assume "bg \<and> results_str d = None \<and> \<not> allocs_succeed 1 h"
  then show "th_ctrl_data_start d sh ac av bg h =
         Inr (d, h\<lparr>outcomes := drop 1 (outcomes h)\<rparr>,
              [Shell_error ''Cannot start a thread: no memory to store a response'' []])"
    using assms(1) by (intro th_ctrl_data_start_buffer_refused) simp_all
next
  assume a: "(bg \<and> results_str d = None \<longrightarrow> allocs_succeed 1 h) \<and>
     \<not> allocs_succeed (allocs_needed d ac bg) h"
  then have buf: "bg \<and> results_str d = None \<longrightarrow> allocs_succeed 1 h"
    and fail: "\<not> allocs_succeed (allocs_needed d ac bg) h" by simp_all
  show "\<exists>h'. th_ctrl_data_start d sh ac av bg h =
          Inr (d\<lparr>argc := ac - 1, argv := None,
                 results_str := (if bg then (if results_str d = None then Some (fresh_addr h)
                                            else results_str d)
                                 else None)\<rparr>, h',
               [Shell_error ''Cannot start a thread: no memory for duplicated cmd args'' []]) \<and>
          (\<forall>x. blk h x \<noteq> None \<and> Some x \<notin> set (slot_pointers d h) \<longrightarrow>
               blk h' x = blk h x) \<and>
          (bg \<and> slot_blocks_ok d h \<longrightarrow>
             load_str h' (if results_str d = None then Some (fresh_addr h) else results_str d) =
               Some [])"
    by (rule th_ctrl_data_start_duplication_fails [OF assms buf fail])
qed

text \<open>
  The amended C1 at concrete inputs, a background start of \<open>startbg iperf3 -s\<close> on the
  fresh slot 1. With the result buffer refused the slot and the empty heap are as before.
  With the result buffer allocated (block 1) and the pointer array refused, \<open>argc\<close> is 2,
  \<open>argv\<close> is \<^verbatim>\<open>NULL\<close>, and block 1 is still allocated and is the slot's result buffer.
\<close>

theorem th_ctrl_data_start_out_of_memory_witness:
  "\<not> k_work_is_pending (work (zero_data\<lparr>th_nbr := 1\<rparr>)) \<and>
   \<not> allocs_succeed 1 \<lparr>live = [], outcomes = [False]\<rparr> \<and>
   th_ctrl_data_start (zero_data\<lparr>th_nbr := 1\<rparr>) \<lparr>cmd_buff_len = 17\<rparr> 3
      [''startbg'', ''iperf3'', ''-s''] True \<lparr>live = [], outcomes = [False]\<rparr> =
     Inr (zero_data\<lparr>th_nbr := 1\<rparr>, \<lparr>live = [], outcomes = []\<rparr>,
          [Shell_error ''Cannot start a thread: no memory to store a response'' []]) \<and>
   allocs_succeed 1 \<lparr>live = [], outcomes = [True, False]\<rparr> \<and>
   \<not> allocs_succeed (allocs_needed (zero_data\<lparr>th_nbr := 1\<rparr>) 3 True)
        \<lparr>live = [], outcomes = [True, False]\<rparr> \<and>
   slot_blocks_ok (zero_data\<lparr>th_nbr := 1\<rparr>) \<lparr>live = [], outcomes = [True, False]\<rparr> \<and>
   (\<exists>h'. th_ctrl_data_start (zero_data\<lparr>th_nbr := 1\<rparr>) \<lparr>cmd_buff_len = 17\<rparr> 3
           [''startbg'', ''iperf3'', ''-s''] True \<lparr>live = [], outcomes = [True, False]\<rparr> =
          Inr (zero_data\<lparr>th_nbr := 1, argc := 2, argv := None, results_str := Some 1\<rparr>, h',
               [Shell_error ''Cannot start a thread: no memory for duplicated cmd args'' []]) \<and>
        load_str h' (Some 1) = Some [])"
proof -
  let ?d = "zero_data\<lparr>th_nbr := 1\<rparr>"
  let ?sh = "\<lparr>cmd_buff_len = 17\<rparr>"
  let ?av = "[''startbg'', ''iperf3'', ''-s'']"
  let ?h1 = "\<lparr>live = [], outcomes = [False]\<rparr>"
  let ?h2 = "\<lparr>live = [], outcomes = [True, False]\<rparr>"
  note oom = th_ctrl_data_start_out_of_memory
  have idle: "\<not> k_work_is_pending (work ?d)" by (simp add: slot_eval)
  have ac: "(1::nat) < 3" "3 \<le> length ?av" by simp_all
  have bg: "results_str ?d = None" by (simp add: slot_eval)
  have r1: "\<not> allocs_succeed 1 ?h1" by (simp add: slot_eval)
  have s2: "allocs_succeed 1 ?h2" by (simp add: slot_eval)
  have f2: "\<not> allocs_succeed (allocs_needed ?d 3 True) ?h2" by (simp add: slot_eval)
  have ok: "slot_blocks_ok ?d ?h2" by (simp add: slot_eval)
  have fr: "fresh_addr ?h2 = 1" by (simp add: fresh_addr_def)
  from oom [OF idle ac, of True ?h1 ?sh] bg r1
  have one: "th_ctrl_data_start ?d ?sh 3 ?av True ?h1 =
     Inr (?d, \<lparr>live = [], outcomes = []\<rparr>,
          [Shell_error ''Cannot start a thread: no memory to store a response'' []])"
    by simp
  from oom [OF idle ac, of True ?h2 ?sh] bg s2 f2 ok
  obtain h' where
    "th_ctrl_data_start ?d ?sh 3 ?av True ?h2 =
          Inr (?d\<lparr>argc := 3 - 1, argv := None, results_str := Some (fresh_addr ?h2)\<rparr>, h',
               [Shell_error ''Cannot start a thread: no memory for duplicated cmd args'' []])"
    "load_str h' (Some (fresh_addr ?h2)) = Some []"
    by auto
  then have two: "\<exists>h'. th_ctrl_data_start ?d ?sh 3 ?av True ?h2 =
          Inr (zero_data\<lparr>th_nbr := 1, argc := 2, argv := None, results_str := Some 1\<rparr>, h',
               [Shell_error ''Cannot start a thread: no memory for duplicated cmd args'' []]) \<and>
        load_str h' (Some 1) = Some []"
    unfolding fr by (intro exI [of _ h']) simp
  show ?thesis using idle r1 one s2 f2 ok two by simp
qed

section \<open>Slot admission (C5)\<close>

lemma th_ctrl_data_start_returns:
  assumes idle: "\<not> k_work_is_pending (work d)"
    and ac: "1 < ac" "ac \<le> length av"
    and nbr: "th_nbr d = 1 \<or> th_nbr d = 2"
  shows "\<exists>d' h' out. th_ctrl_data_start d sh ac av bg h = Inr (d', h', out) \<and>
           th_nbr d' = th_nbr d \<and>
           (allocs_succeed (allocs_needed d ac bg) h \<longrightarrow>
              out = [] \<and> work d' = k_work_submit_to_queue (th_nbr d) (work d)) \<and>
           (\<not> allocs_succeed (allocs_needed d ac bg) h \<longrightarrow>
              out \<noteq> [] \<and> work d' = work d)"
proof (cases "allocs_succeed (allocs_needed d ac bg) h")
  case True
  from th_ctrl_data_start_success [OF idle ac True nbr, of sh]
  show ?thesis using True by auto
next
  case False
  from th_ctrl_data_start_fail [OF idle ac False, of sh]
  show ?thesis using False by auto
qed

text \<open>
  C5. Controller start scans the slots in a fixed order. For a supported command
  (\<open>argv[1]\<close> is \<open>iperf3\<close>) with \<open>argc\<close> the length of the argument list: when slot 1 is
  idle the job is started on slot 1, whatever slot 2 is doing, and slot 2 is untouched;
  when slot 1 is running and slot 2 idle it is started on slot 2 and slot 1 is untouched;
  in both cases the slot is running afterwards, submitted to its own queue, when no
  allocation fails. When both slots are running, start reports that all workers are busy
  and changes neither slot nor the heap.
\<close>

theorem th_ctrl_start_slot_order:
  assumes valid: "1 < length av" "av ! 1 = ''iperf3''" and len: "ac = length av"
    and nbrs: "th_nbr (th_work_data_1 s) = 1" "th_nbr (th_work_data_2 s) = 2"
  shows
   "(\<not> k_work_is_pending (work (th_work_data_1 s)) \<longrightarrow>
       (\<exists>s' out. th_ctrl_start s sh ac av bg = Inr s' \<and>
          th_ctrl_data_start (th_work_data_1 s) sh ac av bg (mem s) =
            Inr (th_work_data_1 s', mem s', out) \<and>
          console s' = console s @ Shell_print ''Starting ...'' [] # out \<and>
          th_work_data_2 s' = th_work_data_2 s \<and>
          (allocs_succeed (allocs_needed (th_work_data_1 s) ac bg) (mem s) \<longrightarrow>
             out = [] \<and> k_work_is_pending (work (th_work_data_1 s')) \<and>
             queue (work (th_work_data_1 s')) = Some 1))) \<and>
    (k_work_is_pending (work (th_work_data_1 s)) \<and>
     \<not> k_work_is_pending (work (th_work_data_2 s)) \<longrightarrow>
       (\<exists>s' out. th_ctrl_start s sh ac av bg = Inr s' \<and>
          th_ctrl_data_start (th_work_data_2 s) sh ac av bg (mem s) =
            Inr (th_work_data_2 s', mem s', out) \<and>
          console s' = console s @ Shell_print ''Starting ...'' [] # out \<and>
          th_work_data_1 s' = th_work_data_1 s \<and>
          (allocs_succeed (allocs_needed (th_work_data_2 s) ac bg) (mem s) \<longrightarrow>
             out = [] \<and> k_work_is_pending (work (th_work_data_2 s')) \<and>
             queue (work (th_work_data_2 s')) = Some 2))) \<and>
    (k_work_is_pending (work (th_work_data_1 s)) \<and>
     k_work_is_pending (work (th_work_data_2 s)) \<longrightarrow>
       th_ctrl_start s sh ac av bg =
         Inr (s\<lparr>console := console s @
                [Shell_print ''Starting ...'' [],
                 Shell_error ''Worker threads are all busy. Try again later.'' []]\<rparr>))"
proof (intro conjI impI)
  assume idle: "\<not> k_work_is_pending (work (th_work_data_1 s))"
  have ac: "1 < ac" "ac \<le> length av" using valid len by simp_all
  have n: "th_nbr (th_work_data_1 s) = 1 \<or> th_nbr (th_work_data_1 s) = 2" using nbrs by simp
  from th_ctrl_data_start_returns [OF idle ac n, of sh bg "mem s"] obtain d' h' out where
    r: "th_ctrl_data_start (th_work_data_1 s) sh ac av bg (mem s) = Inr (d', h', out)"
    and ok: "allocs_succeed (allocs_needed (th_work_data_1 s) ac bg) (mem s) \<longrightarrow>
              out = [] \<and> work d' = k_work_submit_to_queue (th_nbr (th_work_data_1 s))
                                     (work (th_work_data_1 s))" by blast
  let ?s' = "s\<lparr>console := console s @ [Shell_print ''Starting ...'' []],
               th_work_data_1 := d', mem := h',
               console := (console s @ [Shell_print ''Starting ...'' []]) @ out\<rparr>"
  have "th_ctrl_start s sh ac av bg = Inr ?s'"
    using valid idle r by (simp add: th_ctrl_start_def Let_def)
  moreover have "th_ctrl_data_start (th_work_data_1 s) sh ac av bg (mem s) =
            Inr (th_work_data_1 ?s', mem ?s', out)" using r by simp
  moreover have "console ?s' = console s @ Shell_print ''Starting ...'' [] # out" by simp
  moreover have "th_work_data_2 ?s' = th_work_data_2 s" by simp
  moreover have "allocs_succeed (allocs_needed (th_work_data_1 s) ac bg) (mem s) \<longrightarrow>
             out = [] \<and> k_work_is_pending (work (th_work_data_1 ?s')) \<and>
             queue (work (th_work_data_1 ?s')) = Some 1"
    using ok nbrs by (simp add: k_work_submit_to_queue_def k_work_is_pending_def)
  ultimately show "\<exists>s' out. th_ctrl_start s sh ac av bg = Inr s' \<and>
          th_ctrl_data_start (th_work_data_1 s) sh ac av bg (mem s) =
            Inr (th_work_data_1 s', mem s', out) \<and>
          console s' = console s @ Shell_print ''Starting ...'' [] # out \<and>
          th_work_data_2 s' = th_work_data_2 s \<and>
          (allocs_succeed (allocs_needed (th_work_data_1 s) ac bg) (mem s) \<longrightarrow>
             out = [] \<and> k_work_is_pending (work (th_work_data_1 s')) \<and>
             queue (work (th_work_data_1 s')) = Some 1)" by blast
next
  assume a: "k_work_is_pending (work (th_work_data_1 s)) \<and>
     \<not> k_work_is_pending (work (th_work_data_2 s))"
  then have busy: "k_work_is_pending (work (th_work_data_1 s))"
    and idle: "\<not> k_work_is_pending (work (th_work_data_2 s))" by simp_all
  have ac: "1 < ac" "ac \<le> length av" using valid len by simp_all
  have n: "th_nbr (th_work_data_2 s) = 1 \<or> th_nbr (th_work_data_2 s) = 2" using nbrs by simp
  from th_ctrl_data_start_returns [OF idle ac n, of sh bg "mem s"] obtain d' h' out where
    r: "th_ctrl_data_start (th_work_data_2 s) sh ac av bg (mem s) = Inr (d', h', out)"
    and ok: "allocs_succeed (allocs_needed (th_work_data_2 s) ac bg) (mem s) \<longrightarrow>
              out = [] \<and> work d' = k_work_submit_to_queue (th_nbr (th_work_data_2 s))
                                     (work (th_work_data_2 s))" by blast
  let ?s' = "s\<lparr>console := console s @ [Shell_print ''Starting ...'' []],
               th_work_data_2 := d', mem := h',
               console := (console s @ [Shell_print ''Starting ...'' []]) @ out\<rparr>"
  have "th_ctrl_start s sh ac av bg = Inr ?s'"
    using valid idle busy r by (simp add: th_ctrl_start_def Let_def)
  moreover have "th_ctrl_data_start (th_work_data_2 s) sh ac av bg (mem s) =
            Inr (th_work_data_2 ?s', mem ?s', out)" using r by simp
  moreover have "console ?s' = console s @ Shell_print ''Starting ...'' [] # out" by simp
  moreover have "th_work_data_1 ?s' = th_work_data_1 s" by simp
  moreover have "allocs_succeed (allocs_needed (th_work_data_2 s) ac bg) (mem s) \<longrightarrow>
             out = [] \<and> k_work_is_pending (work (th_work_data_2 ?s')) \<and>
             queue (work (th_work_data_2 ?s')) = Some 2"
    using ok nbrs by (simp add: k_work_submit_to_queue_def k_work_is_pending_def)
  ultimately show "\<exists>s' out. th_ctrl_start s sh ac av bg = Inr s' \<and>
          th_ctrl_data_start (th_work_data_2 s) sh ac av bg (mem s) =
            Inr (th_work_data_2 s', mem s', out) \<and>
          console s' = console s @ Shell_print ''Starting ...'' [] # out \<and>
          th_work_data_1 s' = th_work_data_1 s \<and>
          (allocs_succeed (allocs_needed (th_work_data_2 s) ac bg) (mem s) \<longrightarrow>
             out = [] \<and> k_work_is_pending (work (th_work_data_2 s')) \<and>
             queue (work (th_work_data_2 s')) = Some 2)" by blast
next
  assume "k_work_is_pending (work (th_work_data_1 s)) \<and>
     k_work_is_pending (work (th_work_data_2 s))"
  then show "th_ctrl_start s sh ac av bg =
         Inr (s\<lparr>console := console s @
                [Shell_print ''Starting ...'' [],
                 Shell_error ''Worker threads are all busy. Try again later.'' []]\<rparr>)"
    using valid by (simp add: th_ctrl_start_def Let_def)
qed

text \<open>
  C5 at concrete inputs: the first start after initialisation goes to slot 1, and a start
  while both slots are running only prints the two lines.
\<close>

theorem th_ctrl_start_slot_order_witness:
  "\<not> k_work_is_pending (work (th_work_data_1 (th_ctrl_init \<lparr>live = [], outcomes = []\<rparr>))) \<and>
   (\<exists>s'. th_ctrl_start (th_ctrl_init \<lparr>live = [], outcomes = []\<rparr>) \<lparr>cmd_buff_len = 17\<rparr> 3
            [''startbg'', ''iperf3'', ''-s''] True = Inr s' \<and>
         th_work_data_2 s' = th_work_data_2 (th_ctrl_init \<lparr>live = [], outcomes = []\<rparr>) \<and>
         k_work_is_pending (work (th_work_data_1 s')) \<and>
         queue (work (th_work_data_1 s')) = Some 1) \<and>
   th_ctrl_start
     ((th_ctrl_init \<lparr>live = [], outcomes = []\<rparr>)
        \<lparr>th_work_data_1 := zero_data\<lparr>th_nbr := 1, work := \<lparr>pending = True, queue = Some 1\<rparr>\<rparr>,
         th_work_data_2 := zero_data\<lparr>th_nbr := 2, work := \<lparr>pending = True, queue = Some 2\<rparr>\<rparr>\<rparr>)
     \<lparr>cmd_buff_len = 17\<rparr> 3 [''startbg'', ''iperf3'', ''-s''] True =
   Inr ((th_ctrl_init \<lparr>live = [], outcomes = []\<rparr>)
        \<lparr>th_work_data_1 := zero_data\<lparr>th_nbr := 1, work := \<lparr>pending = True, queue = Some 1\<rparr>\<rparr>,
         th_work_data_2 := zero_data\<lparr>th_nbr := 2, work := \<lparr>pending = True, queue = Some 2\<rparr>\<rparr>,
         console := [Shell_print ''Starting ...'' [],
                     Shell_error ''Worker threads are all busy. Try again later.'' []]\<rparr>)"
proof -
  let ?s0 = "th_ctrl_init \<lparr>live = [], outcomes = []\<rparr>"
  let ?sb = "?s0\<lparr>th_work_data_1 := zero_data\<lparr>th_nbr := 1, work := \<lparr>pending = True, queue = Some 1\<rparr>\<rparr>,
         th_work_data_2 := zero_data\<lparr>th_nbr := 2, work := \<lparr>pending = True, queue = Some 2\<rparr>\<rparr>\<rparr>"
  let ?av = "[''startbg'', ''iperf3'', ''-s'']"
  have valid: "1 < length ?av" "?av ! 1 = ''iperf3''" "(3::nat) = length ?av" by simp_all
  have n0: "th_nbr (th_work_data_1 ?s0) = 1" "th_nbr (th_work_data_2 ?s0) = 2"
    by (simp_all add: th_ctrl_init_def)
  have nb: "th_nbr (th_work_data_1 ?sb) = 1" "th_nbr (th_work_data_2 ?sb) = 2"
    by simp_all
  have idle: "\<not> k_work_is_pending (work (th_work_data_1 ?s0))"
    by (simp add: th_ctrl_init_def zero_data_def k_work_is_pending_def)
  have ok: "allocs_succeed (allocs_needed (th_work_data_1 ?s0) 3 True) (mem ?s0)"
    by (simp add: th_ctrl_init_def allocs_succeed_def)
  have busy: "k_work_is_pending (work (th_work_data_1 ?sb)) \<and>
              k_work_is_pending (work (th_work_data_2 ?sb))"
    by (simp add: k_work_is_pending_def)
  from th_ctrl_start_slot_order [OF valid n0, of "\<lparr>cmd_buff_len = 17\<rparr>" True] idle ok
  have first: "\<exists>s'. th_ctrl_start ?s0 \<lparr>cmd_buff_len = 17\<rparr> 3 ?av True = Inr s' \<and>
         th_work_data_2 s' = th_work_data_2 ?s0 \<and>
         k_work_is_pending (work (th_work_data_1 s')) \<and>
         queue (work (th_work_data_1 s')) = Some 1" by blast
  from th_ctrl_start_slot_order [OF valid nb, of "\<lparr>cmd_buff_len = 17\<rparr>" True] busy
  have third: "th_ctrl_start ?sb \<lparr>cmd_buff_len = 17\<rparr> 3 ?av True =
      Inr (?sb\<lparr>console := console ?sb @ [Shell_print ''Starting ...'' [],
                 Shell_error ''Worker threads are all busy. Try again later.'' []]\<rparr>)"
    by blast
  have c: "console ?sb = []" by (simp add: th_ctrl_init_def)
  show ?thesis using idle first third unfolding c by simp
qed

section \<open>The stored argument vector (C10)\<close>

text \<open>
  C10. A successful controller start with \<open>n \<ge> 2\<close> arguments stores in the chosen slot
  \<open>k\<close> exactly the \<open>n - 1\<close> copies of the caller's arguments 1 to \<open>n - 1\<close>, in order, and
  records \<open>argc = n - 1\<close>; the token the job-kind check compares is the first of the stored
  vector, and the command line reconstructed later is that of the stored vector. The check
  reads the caller's entry 1 before anything else, so a list shorter than 2 is a fault;
  the slot-level start asserts \<open>argc > 1\<close>.
\<close>

theorem th_ctrl_start_stores_stripped_argv:
  "(length av < 2 \<longrightarrow> th_ctrl_start s sh ac av bg = Inl Invalid_read) \<and>
   (ac \<le> 1 \<longrightarrow> th_ctrl_data_start_argv d sh ac av bg h = Inl Assertion_failed) \<and>
   (2 \<le> length av \<and> av ! 1 \<noteq> ''iperf3'' \<longrightarrow>
      th_ctrl_start s sh ac av bg =
        Inr (s\<lparr>console := console s @ [Shell_error ''Only iperf3 is supported currently.'' []]\<rparr>)) \<and>
   (2 \<le> ac \<and> ac = length av \<and> av ! 1 = ''iperf3'' \<and>
    th_nbr (th_work_data_1 s) = 1 \<and> th_nbr (th_work_data_2 s) = 2 \<and>
    \<not> k_work_is_pending (work (slot s k)) \<and>
    k = (if k_work_is_pending (work (th_work_data_1 s)) then 2 else 1) \<and>
    allocs_succeed (allocs_needed (slot s k) ac bg) (mem s) \<longrightarrow>
      (\<exists>s'. th_ctrl_start s sh ac av bg = Inr s' \<and>
         k_work_is_pending (work (slot s' k)) \<and>
         argc (slot s' k) = ac - 1 \<and>
         argv_strings (mem s') (argv (slot s' k)) (argc (slot s' k)) = map Some (tl av) \<and>
         hd (tl av) = ''iperf3'' \<and>
         (\<forall>cap len. length (command_line (tl av)) \<le> len + 1 \<and>
                    length (command_line (tl av)) + 1 \<le> cap \<longrightarrow>
            th_ctrl_get_command_str_from_argv (mem s') (argc (slot s' k)) (argv (slot s' k))
              (Some cap) len = Inr (command_line (tl av)))))"
proof (intro conjI impI)
  assume "length av < 2"
  then show "th_ctrl_start s sh ac av bg = Inl Invalid_read"
    by (simp add: th_ctrl_start_def)
next
  assume "ac \<le> 1"
  then show "th_ctrl_data_start_argv d sh ac av bg h = Inl Assertion_failed"
    by (simp add: th_ctrl_data_start_argv_def)
next
  assume "2 \<le> length av \<and> av ! 1 \<noteq> ''iperf3''"
  then show "th_ctrl_start s sh ac av bg =
        Inr (s\<lparr>console := console s @ [Shell_error ''Only iperf3 is supported currently.'' []]\<rparr>)"
    by (simp add: th_ctrl_start_def)
next
  assume a: "2 \<le> ac \<and> ac = length av \<and> av ! 1 = ''iperf3'' \<and>
    th_nbr (th_work_data_1 s) = 1 \<and> th_nbr (th_work_data_2 s) = 2 \<and>
    \<not> k_work_is_pending (work (slot s k)) \<and>
    k = (if k_work_is_pending (work (th_work_data_1 s)) then 2 else 1) \<and>
    allocs_succeed (allocs_needed (slot s k) ac bg) (mem s)"
  then have ac: "1 < ac" "ac \<le> length av" and len: "ac = length av"
    and valid: "1 < length av" "av ! 1 = ''iperf3''"
    and idle: "\<not> k_work_is_pending (work (slot s k))"
    and k: "k = (if k_work_is_pending (work (th_work_data_1 s)) then 2 else 1)"
    and ok: "allocs_succeed (allocs_needed (slot s k) ac bg) (mem s)"
    and n: "th_nbr (slot s k) = 1 \<or> th_nbr (slot s k) = 2"
    by (auto simp: slot_def)
  have tl: "take (ac - 1) (drop 1 av) = tl av" using len by (simp add: drop_Suc)
  have hd: "hd (tl av) = ''iperf3''" using valid
    by (cases av; cases "tl av") auto
  from th_ctrl_data_start_success [OF idle ac ok n, of sh] obtain d' h' where
    r: "th_ctrl_data_start (slot s k) sh ac av bg (mem s) = Inr (d', h', [])"
    and w: "work d' = k_work_submit_to_queue (th_nbr (slot s k)) (work (slot s k))"
    and c: "argc d' = ac - 1"
    and strs: "argv_strings h' (argv d') (argc d') = map Some (tl av)"
    unfolding tl by blast
  have p: "k_work_is_pending (work d')"
    using w by (simp add: k_work_submit_to_queue_def k_work_is_pending_def)
  have joins: "\<forall>cap len. length (command_line (tl av)) \<le> len + 1 \<and>
                    length (command_line (tl av)) + 1 \<le> cap \<longrightarrow>
            th_ctrl_get_command_str_from_argv h' (argc d') (argv d') (Some cap) len =
              Inr (command_line (tl av))"
    using th_ctrl_get_command_str_from_argv_joins [OF strs] by blast
  show "\<exists>s'. th_ctrl_start s sh ac av bg = Inr s' \<and>
         k_work_is_pending (work (slot s' k)) \<and>
         argc (slot s' k) = ac - 1 \<and>
         argv_strings (mem s') (argv (slot s' k)) (argc (slot s' k)) = map Some (tl av) \<and>
         hd (tl av) = ''iperf3'' \<and>
         (\<forall>cap len. length (command_line (tl av)) \<le> len + 1 \<and>
                    length (command_line (tl av)) + 1 \<le> cap \<longrightarrow>
            th_ctrl_get_command_str_from_argv (mem s') (argc (slot s' k)) (argv (slot s' k))
              (Some cap) len = Inr (command_line (tl av)))"
  proof (cases "k_work_is_pending (work (th_work_data_1 s))")
    case False
    then have k1: "k = 1" using k by simp
    let ?s' = "s\<lparr>console := console s @ [Shell_print ''Starting ...'' []],
               th_work_data_1 := d', mem := h',
               console := (console s @ [Shell_print ''Starting ...'' []]) @ []\<rparr>"
    have "th_ctrl_start s sh ac av bg = Inr ?s'"
      using valid False r k1 by (simp add: th_ctrl_start_def Let_def slot_def)
    moreover have "slot ?s' k = d'" "mem ?s' = h'" using k1 by (simp_all add: slot_def)
    ultimately show ?thesis using p c strs hd joins by (intro exI [of _ ?s']) simp
  next
    case True
    then have k2: "k = 2" using k by simp
    then have idle2: "\<not> k_work_is_pending (work (th_work_data_2 s))"
      using idle by (simp add: slot_def)
    let ?s' = "s\<lparr>console := console s @ [Shell_print ''Starting ...'' []],
               th_work_data_2 := d', mem := h',
               console := (console s @ [Shell_print ''Starting ...'' []]) @ []\<rparr>"
    have "th_ctrl_start s sh ac av bg = Inr ?s'"
      using valid True idle2 r k2 by (simp add: th_ctrl_start_def Let_def slot_def)
    moreover have "slot ?s' k = d'" "mem ?s' = h'" using k2 by (simp_all add: slot_def)
    ultimately show ?thesis using p c strs hd joins by (intro exI [of _ ?s']) simp
  qed
qed

text \<open>
  C10 at concrete inputs: a list of one argument faults, and \<open>startbg iperf3 -s\<close> is
  stored as \<open>iperf3\<close>, \<open>-s\<close>.
\<close>

theorem th_ctrl_start_stores_stripped_argv_witness:
  "th_ctrl_start (th_ctrl_init \<lparr>live = [], outcomes = []\<rparr>) \<lparr>cmd_buff_len = 7\<rparr> 1
     [''startbg''] True = Inl Invalid_read \<and>
   \<not> k_work_is_pending (work (slot (th_ctrl_init \<lparr>live = [], outcomes = []\<rparr>) 1)) \<and>
   (\<exists>s'. th_ctrl_start (th_ctrl_init \<lparr>live = [], outcomes = []\<rparr>) \<lparr>cmd_buff_len = 17\<rparr> 3
            [''startbg'', ''iperf3'', ''-s''] True = Inr s' \<and>
         argc (slot s' 1) = 2 \<and>
         argv_strings (mem s') (argv (slot s' 1)) (argc (slot s' 1)) =
           [Some ''iperf3'', Some ''-s''] \<and>
         th_ctrl_get_command_str_from_argv (mem s') (argc (slot s' 1)) (argv (slot s' 1))
           (Some 18) 18 = Inr ''iperf3 -s '')"
proof -
  let ?s0 = "th_ctrl_init \<lparr>live = [], outcomes = []\<rparr>"
  let ?av = "[''startbg'', ''iperf3'', ''-s'']"
  note stores = th_ctrl_start_stores_stripped_argv
  have short: "th_ctrl_start ?s0 \<lparr>cmd_buff_len = 7\<rparr> 1 [''startbg''] True = Inl Invalid_read"
    using stores [of "[''startbg'']" ?s0 "\<lparr>cmd_buff_len = 7\<rparr>" 1 True] by simp
  have idle: "\<not> k_work_is_pending (work (slot ?s0 1))"
    by (simp add: slot_def th_ctrl_init_def zero_data_def k_work_is_pending_def)
  have pre: "2 \<le> (3::nat) \<and> (3::nat) = length ?av \<and> ?av ! 1 = ''iperf3'' \<and>
    th_nbr (th_work_data_1 ?s0) = 1 \<and> th_nbr (th_work_data_2 ?s0) = 2 \<and>
    \<not> k_work_is_pending (work (slot ?s0 1)) \<and>
    (1::int) = (if k_work_is_pending (work (th_work_data_1 ?s0)) then 2 else 1) \<and>
    allocs_succeed (allocs_needed (slot ?s0 1) 3 True) (mem ?s0)"
    by (simp add: slot_def th_ctrl_init_def zero_data_def k_work_is_pending_def
        allocs_succeed_def)
  have cl: "command_line (tl ?av) = ''iperf3 -s ''" by (simp add: command_line_def)
  from stores [of ?av ?s0 "\<lparr>cmd_buff_len = 17\<rparr>" 3 True _ _ 1] pre
  obtain s' where s': "th_ctrl_start ?s0 \<lparr>cmd_buff_len = 17\<rparr> 3 ?av True = Inr s'"
    "argc (slot s' 1) = 3 - 1"
    "argv_strings (mem s') (argv (slot s' 1)) (argc (slot s' 1)) = map Some (tl ?av)"
    "\<forall>cap len. length (command_line (tl ?av)) \<le> len + 1 \<and>
                    length (command_line (tl ?av)) + 1 \<le> cap \<longrightarrow>
            th_ctrl_get_command_str_from_argv (mem s') (argc (slot s' 1)) (argv (slot s' 1))
              (Some cap) len = Inr (command_line (tl ?av))"
    by blast
  from s'(4) have "th_ctrl_get_command_str_from_argv (mem s') (argc (slot s' 1))
      (argv (slot s' 1)) (Some 18) 18 = Inr ''iperf3 -s ''"
    unfolding cl by simp
  with s'(1-3) have "\<exists>s'. th_ctrl_start ?s0 \<lparr>cmd_buff_len = 17\<rparr> 3 ?av True = Inr s' \<and>
         argc (slot s' 1) = 2 \<and>
         argv_strings (mem s') (argv (slot s' 1)) (argc (slot s' 1)) =
           [Some ''iperf3'', Some ''-s''] \<and>
         th_ctrl_get_command_str_from_argv (mem s') (argc (slot s' 1)) (argv (slot s' 1))
           (Some 18) 18 = Inr ''iperf3 -s ''"
    by (intro exI [of _ s']) simp
  with short idle show ?thesis by simp
qed

section \<open>Cancellation (C4, C9)\<close>

text \<open>
  C4, as stated: kill_all raises the signal of both slots whether they are running or
  idle. Right after initialisation both slots are idle, and after \<^verbatim>\<open>th_ctrl_kill_em_all\<close>
  neither signal is raised.
\<close>

theorem th_ctrl_kill_em_all_idle_counterexample:
  "\<not> k_work_is_pending (work (th_work_data_1 (th_ctrl_init \<lparr>live = [], outcomes = []\<rparr>))) \<and>
   \<not> k_work_is_pending (work (th_work_data_2 (th_ctrl_init \<lparr>live = [], outcomes = []\<rparr>))) \<and>
   \<not> signaled (kill_signal (th_work_data_1
        (th_ctrl_kill_em_all (th_ctrl_init \<lparr>live = [], outcomes = []\<rparr>)))) \<and>
   \<not> signaled (kill_signal (th_work_data_2
        (th_ctrl_kill_em_all (th_ctrl_init \<lparr>live = [], outcomes = []\<rparr>))))"
  by (simp add: heap_eval slot_eval ctrl_eval)

text \<open>
  C4, amended. \<^verbatim>\<open>th_ctrl_kill_em_all\<close> raises the signal of each slot that is running,
  with the slot number as its value, and leaves an idle slot as it is; it changes nothing
  else and prints nothing.
\<close>

theorem th_ctrl_kill_em_all_running_only:
  "th_work_data_1 (th_ctrl_kill_em_all s) =
     (if k_work_is_pending (work (th_work_data_1 s))
      then (th_work_data_1 s)\<lparr>kill_signal := \<lparr>signaled = True, result = 1\<rparr>\<rparr>
      else th_work_data_1 s) \<and>
   th_work_data_2 (th_ctrl_kill_em_all s) =
     (if k_work_is_pending (work (th_work_data_2 s))
      then (th_work_data_2 s)\<lparr>kill_signal := \<lparr>signaled = True, result = 2\<rparr>\<rparr>
      else th_work_data_2 s) \<and>
   mem (th_ctrl_kill_em_all s) = mem s \<and>
   console (th_ctrl_kill_em_all s) = console s"
  by (simp add: th_ctrl_kill_em_all_def k_poll_signal_raise_def Let_def)

text \<open>
  The amended C4 with slot 1 running and slot 2 idle.
\<close>

theorem th_ctrl_kill_em_all_running_only_witness:
  "k_work_is_pending (work (th_work_data_1
      ((th_ctrl_init \<lparr>live = [], outcomes = []\<rparr>)
         \<lparr>th_work_data_1 := zero_data\<lparr>th_nbr := 1, work := \<lparr>pending = True, queue = Some 1\<rparr>\<rparr>\<rparr>))) \<and>
   th_work_data_1 (th_ctrl_kill_em_all
      ((th_ctrl_init \<lparr>live = [], outcomes = []\<rparr>)
         \<lparr>th_work_data_1 := zero_data\<lparr>th_nbr := 1, work := \<lparr>pending = True, queue = Some 1\<rparr>\<rparr>\<rparr>)) =
     zero_data\<lparr>th_nbr := 1, work := \<lparr>pending = True, queue = Some 1\<rparr>,
               kill_signal := \<lparr>signaled = True, result = 1\<rparr>\<rparr> \<and>
   th_work_data_2 (th_ctrl_kill_em_all
      ((th_ctrl_init \<lparr>live = [], outcomes = []\<rparr>)
         \<lparr>th_work_data_1 := zero_data\<lparr>th_nbr := 1, work := \<lparr>pending = True, queue = Some 1\<rparr>\<rparr>\<rparr>)) =
     zero_data\<lparr>th_nbr := 2\<rparr>"
  using th_ctrl_kill_em_all_running_only
    [of "(th_ctrl_init \<lparr>live = [], outcomes = []\<rparr>)
         \<lparr>th_work_data_1 := zero_data\<lparr>th_nbr := 1, work := \<lparr>pending = True, queue = Some 1\<rparr>\<rparr>\<rparr>"]
  by (simp add: k_work_is_pending_def th_ctrl_init_def zero_data_def)

text \<open>
  C9. Kill on a slot (1 or 2) that is not running prints that the thread is not running
  and changes nothing else; kill on a running slot raises that slot's signal with the
  slot number as its value and changes no other field of the slot, nor the other slot,
  the heap or the output.
\<close>

theorem th_ctrl_kill_one_slot:
  assumes "nbr = 1 \<or> nbr = 2"
  shows "(\<not> k_work_is_pending (work (slot s nbr)) \<longrightarrow>
            th_ctrl_kill s nbr =
              s\<lparr>console := console s @
                [Shell_print (if nbr = 1 then ''Thread #1 not running''
                              else ''Thread #2 not running'') []]\<rparr>) \<and>
         (k_work_is_pending (work (slot s nbr)) \<longrightarrow>
            slot (th_ctrl_kill s nbr) nbr =
              (slot s nbr)\<lparr>kill_signal := \<lparr>signaled = True, result = nbr\<rparr>\<rparr> \<and>
            slot (th_ctrl_kill s nbr) (3 - nbr) = slot s (3 - nbr) \<and>
            mem (th_ctrl_kill s nbr) = mem s \<and>
            console (th_ctrl_kill s nbr) = console s)"
  using assms by (auto simp: th_ctrl_kill_def slot_def k_poll_signal_raise_def)

text \<open>
  C9 on slot 2, idle and running.
\<close>

theorem th_ctrl_kill_one_slot_witness:
  "\<not> k_work_is_pending (work (slot (th_ctrl_init \<lparr>live = [], outcomes = []\<rparr>) 2)) \<and>
   th_ctrl_kill (th_ctrl_init \<lparr>live = [], outcomes = []\<rparr>) 2 =
     (th_ctrl_init \<lparr>live = [], outcomes = []\<rparr>)
       \<lparr>console := [Shell_print ''Thread #2 not running'' []]\<rparr> \<and>
   k_work_is_pending (work (slot
      ((th_ctrl_init \<lparr>live = [], outcomes = []\<rparr>)
         \<lparr>th_work_data_2 := zero_data\<lparr>th_nbr := 2, work := \<lparr>pending = True, queue = Some 2\<rparr>\<rparr>\<rparr>) 2)) \<and>
   th_ctrl_kill
      ((th_ctrl_init \<lparr>live = [], outcomes = []\<rparr>)
         \<lparr>th_work_data_2 := zero_data\<lparr>th_nbr := 2, work := \<lparr>pending = True, queue = Some 2\<rparr>\<rparr>\<rparr>) 2 =
     (th_ctrl_init \<lparr>live = [], outcomes = []\<rparr>)
       \<lparr>th_work_data_2 := zero_data\<lparr>th_nbr := 2, work := \<lparr>pending = True, queue = Some 2\<rparr>,
                                    kill_signal := \<lparr>signaled = True, result = 2\<rparr>\<rparr>\<rparr>"
proof -
  let ?s0 = "th_ctrl_init \<lparr>live = [], outcomes = []\<rparr>"
  let ?d = "zero_data\<lparr>th_nbr := 2, work := \<lparr>pending = True, queue = Some 2\<rparr>\<rparr>"
  let ?s1 = "?s0\<lparr>th_work_data_2 := ?d\<rparr>"
  have two: "(2::int) = 1 \<or> (2::int) = 2" by simp
  have idle: "\<not> k_work_is_pending (work (slot ?s0 2))"
    by (simp add: slot_def th_ctrl_init_def zero_data_def k_work_is_pending_def)
  have run: "k_work_is_pending (work (slot ?s1 2))"
    by (simp add: slot_def k_work_is_pending_def)
  from th_ctrl_kill_one_slot [OF two, of ?s0] idle
  have a: "th_ctrl_kill ?s0 2 = ?s0\<lparr>console := [Shell_print ''Thread #2 not running'' []]\<rparr>"
    by (simp add: th_ctrl_init_def)
  from th_ctrl_kill_one_slot [OF two, of ?s1] run
  have b: "slot (th_ctrl_kill ?s1 2) 2 = ?d\<lparr>kill_signal := \<lparr>signaled = True, result = 2\<rparr>\<rparr>"
    "slot (th_ctrl_kill ?s1 2) 1 = slot ?s1 1" "mem (th_ctrl_kill ?s1 2) = mem ?s1"
    "console (th_ctrl_kill ?s1 2) = console ?s1"
    by (simp_all add: slot_def)
  have c: "th_ctrl_kill ?s1 2 =
     ?s0\<lparr>th_work_data_2 := ?d\<lparr>kill_signal := \<lparr>signaled = True, result = 2\<rparr>\<rparr>\<rparr>"
    using b by (intro th_state.equality) (simp_all add: slot_def)
  show ?thesis using idle a run c by simp
qed

section \<open>Status (C7, C8)\<close>




text \<open>
  C8. For every argument list accepted by a successful start, while the results are
  unconsumed, the command line reconstructed by the status equals the started arguments
  joined by whitespace. The print buffer of the status is allocated with \<^verbatim>\<open>calloc\<close> and
  used unchecked. After a background start of \<open>startbg iperf3 -s\<close> on the fresh slot 1 and
  \<open>done\<close> written to the result buffer, a status whose print buffer is refused prints the
  header, that results are available and that the thread is running, and then writes the
  first argument through \<^verbatim>\<open>NULL\<close>: the run ends in a fault and no command line is printed.
\<close>

theorem status_print_unchecked_calloc:
  "th_ctrl_data_start (zero_data\<lparr>th_nbr := 1\<rparr>) \<lparr>cmd_buff_len = 17\<rparr> 3
      [''startbg'', ''iperf3'', ''-s''] True
      \<lparr>live = [], outcomes = [True, True, True, True, False]\<rparr> =
     Inr (zero_data\<lparr>th_nbr := 1, shell := Some \<lparr>cmd_buff_len = 17\<rparr>,
                    work := \<lparr>pending = True, queue = Some 1\<rparr>, results_str := Some 1,
                    argv := Some 2, argc := 2, cmd_len := 17, background := True\<rparr>,
          \<lparr>live = [(4, Chars ''-s''), (3, Chars ''iperf3''), (2, Ptrs [Some 3, Some 4]),
                   (1, Chars [])], outcomes = [False]\<rparr>, []) \<and>
   th_ctrl_work_handler
     (zero_data\<lparr>th_nbr := 1, shell := Some \<lparr>cmd_buff_len = 17\<rparr>,
                work := \<lparr>pending = True, queue = Some 1\<rparr>, results_str := Some 1,
                argv := Some 2, argc := 2, cmd_len := 17, background := True\<rparr>)
     ''done'' 0
     \<lparr>live = [(4, Chars ''-s''), (3, Chars ''iperf3''), (2, Ptrs [Some 3, Some 4]),
              (1, Chars [])], outcomes = [False]\<rparr> =
     Inr (\<lparr>live = [(4, Chars ''-s''), (3, Chars ''iperf3''), (2, Ptrs [Some 3, Some 4]),
                   (1, Chars ''done'')], outcomes = [False]\<rparr>,
          [Shell_print ''Starting a thread #%d'' [Int_arg 1],
           Shell_print ''--------------------------------------------------'' [],
           Shell_print ''iperf_main returned %d from a thread #%d'' [Int_arg 0, Int_arg 1],
           Shell_print ''Use shell command to print results: \"th results %d\"'' [Int_arg 1],
           Shell_print ''--------------------------------------------------'' []]) \<and>
   th_ctrl_data_status_print
     (zero_data\<lparr>th_nbr := 1, shell := Some \<lparr>cmd_buff_len = 17\<rparr>,
                work := \<lparr>pending = True, queue = Some 1\<rparr>, results_str := Some 1,
                argv := Some 2, argc := 2, cmd_len := 17, background := True\<rparr>)
     \<lparr>live = [(4, Chars ''-s''), (3, Chars ''iperf3''), (2, Ptrs [Some 3, Some 4]),
              (1, Chars ''done'')], outcomes = [False]\<rparr> =
     ([Shell_print ''thread #%d status:'' [Int_arg 1],
       Shell_print ''  Results available'' [],
       Shell_print ''  thread is running'' []],
      Inl Null_dereference)"
  by (simp add: heap_eval slot_eval ctrl_eval)

text \<open>
  When the print buffer is allocated the reconstruction is the one described: after a
  successful start with arguments \<open>av\<close>, as long as the stored vector is as the start left
  it and the result buffer holds text, the command line of the status is the caller's
  arguments 1 to \<open>n - 1\<close> in order, each followed by one space, provided these fit the
  command length recorded at start (\<open>cmd_buff_len\<close>, below 65535), as they do when that is
  the length of a line that holds all \<open>n\<close> arguments.
\<close>

lemma status_round_trip_when_allocated:
  assumes idle: "\<not> k_work_is_pending (work d)"
    and ac: "1 < ac" "ac = length av"
    and ok: "allocs_succeed (allocs_needed d ac bg) h"
    and nbr: "th_nbr d = 1 \<or> th_nbr d = 2"
    and fit: "length (command_line (tl av)) \<le> cmd_buff_len sh" "cmd_buff_len sh < 65535"
  shows "\<exists>d1 h1. th_ctrl_data_start d sh ac av bg h = Inr (d1, h1, []) \<and>
    (\<forall>h2 w res.
       argv_strings h2 (argv d1) (argc d1) = argv_strings h1 (argv d1) (argc d1) \<and>
       load_str h2 (results_str d1) = Some res \<and> res \<noteq> [] \<and> allocs_succeed 1 h2 \<longrightarrow>
       th_ctrl_data_status_print (d1\<lparr>work := w\<rparr>) h2 =
         ([Shell_print ''thread #%d status:'' [Int_arg (int (th_nbr d))],
           Shell_print ''  Results available'' [],
           (if k_work_is_pending w then Shell_print ''  thread is running'' []
            else Shell_print ''  thread is not running'' []),
           Shell_print ''  command: %s'' [Str_arg (command_line (tl av))]],
          Inr (h2\<lparr>outcomes := drop 1 (outcomes h2)\<rparr>)))"
proof -
  have ac': "ac \<le> length av" using ac by simp
  have tl: "take (ac - 1) (drop 1 av) = tl av" using ac by (simp add: drop_Suc)
  from th_ctrl_data_start_success [OF idle ac(1) ac' ok nbr, of sh] obtain d1 h1 where
    r: "th_ctrl_data_start d sh ac av bg h = Inr (d1, h1, [])"
    and strs: "argv_strings h1 (argv d1) (argc d1) = map Some (tl av)"
    and cl: "cmd_len d1 = cmd_buff_len sh mod 65536"
    and n: "th_nbr d1 = th_nbr d"
    unfolding tl by blast
  have cl': "cmd_len d1 = cmd_buff_len sh" using cl fit(2) by simp
  have "\<forall>h2 w res.
       argv_strings h2 (argv d1) (argc d1) = argv_strings h1 (argv d1) (argc d1) \<and>
       load_str h2 (results_str d1) = Some res \<and> res \<noteq> [] \<and> allocs_succeed 1 h2 \<longrightarrow>
       th_ctrl_data_status_print (d1\<lparr>work := w\<rparr>) h2 =
         ([Shell_print ''thread #%d status:'' [Int_arg (int (th_nbr d))],
           Shell_print ''  Results available'' [],
           (if k_work_is_pending w then Shell_print ''  thread is running'' []
            else Shell_print ''  thread is not running'' []),
           Shell_print ''  command: %s'' [Str_arg (command_line (tl av))]],
          Inr (h2\<lparr>outcomes := drop 1 (outcomes h2)\<rparr>))"
  proof (intro allI impI)
    fix h2 w res
    assume a: "argv_strings h2 (argv d1) (argc d1) = argv_strings h1 (argv d1) (argc d1) \<and>
       load_str h2 (results_str d1) = Some res \<and> res \<noteq> [] \<and> allocs_succeed 1 h2"
    let ?d2 = "d1\<lparr>work := w\<rparr>"
    have 1: "load_str h2 (results_str ?d2) = Some res" "res \<noteq> []" using a by simp_all
    have 2: "argv_strings h2 (argv ?d2) (argc ?d2) = map Some (tl av)" using a strs by simp
    have 3: "length (command_line (tl av)) \<le> cmd_len ?d2" "cmd_len ?d2 < 65535"
      using fit cl' by simp_all
    have 4: "allocs_succeed 1 h2" using a by simp
    from th_ctrl_data_status_print_results [OF 1 2 3 4]
    show "th_ctrl_data_status_print ?d2 h2 =
         ([Shell_print ''thread #%d status:'' [Int_arg (int (th_nbr d))],
           Shell_print ''  Results available'' [],
           (if k_work_is_pending w then Shell_print ''  thread is running'' []
            else Shell_print ''  thread is not running'' []),
           Shell_print ''  command: %s'' [Str_arg (command_line (tl av))]],
          Inr (h2\<lparr>outcomes := drop 1 (outcomes h2)\<rparr>))"
      using n by simp
  qed
  with r show ?thesis by blast
qed

section \<open>Results (C6)\<close>

text \<open>
  C6. Reporting the results of a finished slot returns the text, frees the result buffer
  and the argument vector and marks both absent. A background start of
  \<open>startbg iperf3 -s\<close> on the fresh slot 1 leaves the buffer in block 1, the array in
  block 2 and the copies in blocks 3 and 4; the job writes \<open>done\<close> to the buffer and
  ends. Reporting the results then prints the text, resets the fields and frees the
  buffer, the array and the copy of \<open>-s\<close>, but the copy of \<open>iperf3\<close> (block 3) is still
  allocated.
\<close>

theorem result_print_leaks_first_argument:
  "th_ctrl_data_start (zero_data\<lparr>th_nbr := 1\<rparr>) \<lparr>cmd_buff_len = 17\<rparr> 3
      [''startbg'', ''iperf3'', ''-s''] True \<lparr>live = [], outcomes = []\<rparr> =
     Inr (zero_data\<lparr>th_nbr := 1, shell := Some \<lparr>cmd_buff_len = 17\<rparr>,
                    work := \<lparr>pending = True, queue = Some 1\<rparr>, results_str := Some 1,
                    argv := Some 2, argc := 2, cmd_len := 17, background := True\<rparr>,
          \<lparr>live = [(4, Chars ''-s''), (3, Chars ''iperf3''), (2, Ptrs [Some 3, Some 4]),
                   (1, Chars [])], outcomes = []\<rparr>, []) \<and>
   th_ctrl_work_handler
     (zero_data\<lparr>th_nbr := 1, shell := Some \<lparr>cmd_buff_len = 17\<rparr>,
                work := \<lparr>pending = True, queue = Some 1\<rparr>, results_str := Some 1,
                argv := Some 2, argc := 2, cmd_len := 17, background := True\<rparr>)
     ''done'' 0
     \<lparr>live = [(4, Chars ''-s''), (3, Chars ''iperf3''), (2, Ptrs [Some 3, Some 4]),
              (1, Chars [])], outcomes = []\<rparr> =
     Inr (\<lparr>live = [(4, Chars ''-s''), (3, Chars ''iperf3''), (2, Ptrs [Some 3, Some 4]),
                   (1, Chars ''done'')], outcomes = []\<rparr>,
          [Shell_print ''Starting a thread #%d'' [Int_arg 1],
           Shell_print ''--------------------------------------------------'' [],
           Shell_print ''iperf_main returned %d from a thread #%d'' [Int_arg 0, Int_arg 1],
           Shell_print ''Use shell command to print results: \"th results %d\"'' [Int_arg 1],
           Shell_print ''--------------------------------------------------'' []]) \<and>
   work_done
     (zero_data\<lparr>th_nbr := 1, shell := Some \<lparr>cmd_buff_len = 17\<rparr>,
                work := \<lparr>pending = True, queue = Some 1\<rparr>, results_str := Some 1,
                argv := Some 2, argc := 2, cmd_len := 17, background := True\<rparr>) =
     zero_data\<lparr>th_nbr := 1, shell := Some \<lparr>cmd_buff_len = 17\<rparr>,
               work := \<lparr>pending = False, queue = Some 1\<rparr>, results_str := Some 1,
               argv := Some 2, argc := 2, cmd_len := 17, background := True\<rparr> \<and>
   th_ctrl_data_result_print
     (zero_data\<lparr>th_nbr := 1, shell := Some \<lparr>cmd_buff_len = 17\<rparr>,
                work := \<lparr>pending = False, queue = Some 1\<rparr>, results_str := Some 1,
                argv := Some 2, argc := 2, cmd_len := 17, background := True\<rparr>)
     \<lparr>live = [(4, Chars ''-s''), (3, Chars ''iperf3''), (2, Ptrs [Some 3, Some 4]),
              (1, Chars ''done'')], outcomes = []\<rparr> =
   Inr (zero_data\<lparr>th_nbr := 1, shell := Some \<lparr>cmd_buff_len = 17\<rparr>,
                  work := \<lparr>pending = False, queue = Some 1\<rparr>, results_str := None,
                  argv := None, argc := 0, cmd_len := 17, background := True\<rparr>,
        \<lparr>live = [(3, Chars ''iperf3'')], outcomes = []\<rparr>,
        [Shell_print ''thread #%d results:'' [Int_arg 1],
         Shell_print ''-------------------------------------'' [],
         Shell_print ''%s'' [Str_arg ''done''],
         Shell_print ''-------------------------------------'' [],
         Shell_print ''Note: th results #%d were deleted.'' [Int_arg 1]])"
  by (simp add: heap_eval slot_eval ctrl_eval)

end
